theory Spec2Isabelle
  imports Complex_Main "HOL-Library.Stream" "HOL-Library.Log_Nat"
begin

section \<open>JavaScript values\<close>

text \<open>
  The handler \<^verbatim>\<open>POST\<close> of \<^verbatim>\<open>src/app/api/analyze_field/route.ts\<close> reads a JSON
  request body and answers with a JSON document. A value that came out of
  \<^verbatim>\<open>JSON.parse\<close> is a \<open>json\<close>; a value that may also be \<^verbatim>\<open>undefined\<close> (the result
  of reading a property) is a \<open>json option\<close>, with \<open>None\<close> for \<^verbatim>\<open>undefined\<close>.
  \<open>JNum x\<close> is a finite number, \<open>x\<close> being the real value of the binary64 number;
  \<open>JInf True\<close> and \<open>JInf False\<close> are \<^verbatim>\<open>Infinity\<close> and \<^verbatim>\<open>-Infinity\<close>, which
  \<^verbatim>\<open>JSON.parse\<close> returns for a literal that overflows, such as \<^verbatim>\<open>1e400\<close>. An object is
  the list of its own properties, the first binding of a key being the property. The
  exhaustion of memory or of the call stack, by a request nested thousands of levels
  deep, is not modelled.
\<close>

datatype json =
    JNull
  | JBool bool
  | JNum real
  | JInf bool
  | JStr string
  | JArr "json list"
  | JObj "(string \<times> json) list"

datatype js_error = TypeError | RangeError | SyntaxError | Error string

definition err_bind :: "js_error + 'a \<Rightarrow> ('a \<Rightarrow> js_error + 'b) \<Rightarrow> js_error + 'b" where
  "err_bind m f = (case m of Inl e \<Rightarrow> Inl e | Inr x \<Rightarrow> f x)"

text \<open>Truthiness, as \<^verbatim>\<open>||\<close>, \<^verbatim>\<open>&&\<close> and \<^verbatim>\<open>if\<close> test it.\<close>

fun truthy :: "json option \<Rightarrow> bool" where
  "truthy None = False"
| "truthy (Some JNull) = False"
| "truthy (Some (JBool b)) = b"
| "truthy (Some (JNum x)) = (x \<noteq> 0)"
| "truthy (Some (JInf positive)) = True"
| "truthy (Some (JStr s)) = (s \<noteq> [])"
| "truthy (Some (JArr xs)) = True"
| "truthy (Some (JObj kvs)) = True"

text \<open>\<^verbatim>\<open>v || d\<close> with a default \<open>d\<close> that is a JSON value.\<close>

definition js_or :: "json option \<Rightarrow> json \<Rightarrow> json" where
  "js_or v d = (case v of None \<Rightarrow> d | Some x \<Rightarrow> if truthy v then x else d)"

text \<open>
  Reading a property \<^verbatim>\<open>v.k\<close> or \<^verbatim>\<open>v[0]\<close>. The handler reads the names
  \<^verbatim>\<open>num_zones\<close>, \<^verbatim>\<open>crop_type\<close>, \<^verbatim>\<open>crop_growth_stage\<close>, \<^verbatim>\<open>use_ai_insights\<close>,
  \<^verbatim>\<open>groq_api_key\<close>, \<^verbatim>\<open>choices\<close>, \<^verbatim>\<open>0\<close>, \<^verbatim>\<open>message\<close> and \<^verbatim>\<open>content\<close>; none of them is
  inherited from a prototype, so only own properties are looked up: the keys of an
  object, and the index \<^verbatim>\<open>0\<close> of an array or of a string. Reading a property of
  \<^verbatim>\<open>undefined\<close> or \<^verbatim>\<open>null\<close> throws a TypeError.
\<close>

fun get_prop :: "json option \<Rightarrow> string \<Rightarrow> js_error + json option" where
  "get_prop None k = Inl TypeError"
| "get_prop (Some JNull) k = Inl TypeError"
| "get_prop (Some (JObj kvs)) k = Inr (map_of kvs k)"
| "get_prop (Some (JArr xs)) k =
     Inr (if k = ''0'' then (case xs of [] \<Rightarrow> None | x # _ \<Rightarrow> Some x) else None)"
| "get_prop (Some (JStr s)) k =
     Inr (if k = ''0'' then (case s of [] \<Rightarrow> None | c # _ \<Rightarrow> Some (JStr [c])) else None)"
| "get_prop (Some (JBool b)) k = Inr None"
| "get_prop (Some (JNum x)) k = Inr None"
| "get_prop (Some (JInf positive)) k = Inr None"

text \<open>
  The string a template literal \<^verbatim>\<open>${v}\<close> splices in (\<^verbatim>\<open>ToString\<close> of ECMAScript). The
  decimal rendering of a finite number (\<^verbatim>\<open>Number::toString\<close>) is a parameter \<open>fmt\<close>. An
  array is the join of its elements with commas, \<^verbatim>\<open>null\<close> elements giving the empty
  string. An object is converted by its \<^verbatim>\<open>toString\<close> method: the inherited one answers
  \<^verbatim>\<open>[object Object]\<close>; an own property \<^verbatim>\<open>toString\<close> hides it and, coming out of
  \<^verbatim>\<open>JSON.parse\<close>, is not a function, and then neither is \<^verbatim>\<open>valueOf\<close> of any use: the
  conversion throws a TypeError.
\<close>

fun join_comma :: "string list \<Rightarrow> string" where
  "join_comma [] = []"
| "join_comma [s] = s"
| "join_comma (s # t # ss) = s @ '','' @ join_comma (t # ss)"

fun ToString :: "(real \<Rightarrow> string) \<Rightarrow> json \<Rightarrow> js_error + string"
  and element_strings :: "(real \<Rightarrow> string) \<Rightarrow> json list \<Rightarrow> js_error + string list" where
  "ToString fmt JNull = Inr ''null''"
| "ToString fmt (JBool b) = Inr (if b then ''true'' else ''false'')"
| "ToString fmt (JNum x) = Inr (fmt x)"
| "ToString fmt (JInf positive) = Inr (if positive then ''Infinity'' else ''-Infinity'')"
| "ToString fmt (JStr s) = Inr s"
| "ToString fmt (JArr xs) = err_bind (element_strings fmt xs) (\<lambda>ss. Inr (join_comma ss))"
| "ToString fmt (JObj kvs) =
     (if map_of kvs ''toString'' = None then Inr ''[object Object]'' else Inl TypeError)"
| "element_strings fmt [] = Inr []"
| "element_strings fmt (v # vs) =
     err_bind (if v = JNull then Inr [] else ToString fmt v) (\<lambda>s.
     err_bind (element_strings fmt vs) (\<lambda>ss. Inr (s # ss)))"

text \<open>The same for a value that may be \<^verbatim>\<open>undefined\<close>.\<close>

definition ToString_opt :: "(real \<Rightarrow> string) \<Rightarrow> json option \<Rightarrow> js_error + string" where
  "ToString_opt fmt v = (case v of None \<Rightarrow> Inr ''undefined'' | Some x \<Rightarrow> ToString fmt x)"

text \<open>
  \<^verbatim>\<open>JSON.stringify\<close> writes a number that is not finite as \<^verbatim>\<open>null\<close>; \<open>written v\<close> is the
  value a client reads back from what \<^verbatim>\<open>JSON.stringify\<close> writes for \<open>v\<close>.
\<close>

fun written :: "json \<Rightarrow> json" where
  "written (JInf positive) = JNull"
| "written (JArr xs) = JArr (map written xs)"
| "written (JObj kvs) = JObj (map (\<lambda>(k, v). (k, written v)) kvs)"
| "written v = v"

section \<open>Numbers\<close>

text \<open>
  A JavaScript number is a binary64 floating-point number, and every arithmetic
  operation rounds its exact result to the nearest such number, ties going to the even
  significand. \<open>binary64 x\<close> is that rounding of the real number \<open>x\<close>: with
  \<open>2 ^ e \<le> \<bar>x\<bar> < 2 ^ (e + 1)\<close> the representable numbers around \<open>x\<close> are the multiples
  of \<open>2 ^ (e - 52)\<close>, and of \<open>2 ^ - 1074\<close> below the normal range. The overflow to
  \<^verbatim>\<open>Infinity\<close> is in \<open>parse_number\<close> only: the draws of \<^verbatim>\<open>Math.random()\<close> are below 1, so
  that no number the handler computes reaches 64.
\<close>

definition round_half_even :: "real \<Rightarrow> int" where
  "round_half_even y =
     (let n = \<lfloor>y\<rfloor>; d = y - of_int n
      in if d < 1 / 2 then n else if 1 / 2 < d then n + 1 else if even n then n else n + 1)"

definition exponent2 :: "real \<Rightarrow> int" where
  "exponent2 x =
     (if 1 \<le> \<bar>x\<bar> then bitlen \<lfloor>\<bar>x\<bar>\<rfloor> - 1 else - bitlen (\<lceil>1 / \<bar>x\<bar>\<rceil> - 1))"

definition quantum :: "real \<Rightarrow> real" where
  "quantum x = 2 powi (max (exponent2 x) (- 1022) - 52)"

definition binary64 :: "real \<Rightarrow> real" where
  "binary64 x = (if x = 0 then 0 else of_int (round_half_even (x / quantum x)) * quantum x)"

definition plus64 :: "real \<Rightarrow> real \<Rightarrow> real" where
  "plus64 x y = binary64 (x + y)"

definition minus64 :: "real \<Rightarrow> real \<Rightarrow> real" where
  "minus64 x y = binary64 (x - y)"

definition times64 :: "real \<Rightarrow> real \<Rightarrow> real" where
  "times64 x y = binary64 (x * y)"

text \<open>The finite binary64 numbers, and what \<^verbatim>\<open>JSON.parse\<close> reads from a number literal of value \<open>x\<close>.\<close>

definition is_binary64 :: "real \<Rightarrow> bool" where
  "is_binary64 x \<longleftrightarrow> binary64 x = x \<and> \<bar>x\<bar> < 2 ^ 1024"

definition parse_number :: "real \<Rightarrow> json" where
  "parse_number x = (if \<bar>binary64 x\<bar> < 2 ^ 1024 then JNum (binary64 x) else JInf (0 < x))"

section \<open>The environment of one request\<close>

text \<open>
  What the language runtime supplies and the repository does not define: the offset of
  local time from UTC (\<^verbatim>\<open>LocalTZA(t, isUTC)\<close> of ECMAScript, in milliseconds), the
  rendering of numbers, and \<^verbatim>\<open>JSON.parse\<close> applied to a JavaScript value.
\<close>

record runtime =
  LocalTZA :: "int \<Rightarrow> bool \<Rightarrow> int"
  Number_toString :: "real \<Rightarrow> string"
  JSON_parse :: "json option \<Rightarrow> js_error + json"

text \<open>
  The two sources of nondeterminism the handler reads: \<open>draws\<close> are the results of the
  successive calls of \<^verbatim>\<open>Math.random()\<close>, \<open>clock\<close> the time values (milliseconds since
  the epoch) of the successive \<^verbatim>\<open>new Date()\<close>.
\<close>

record world =
  draws :: "real stream"
  clock :: "int stream"

definition Math_random :: "world \<Rightarrow> real \<times> world" where
  "Math_random w = (shd (draws w), w\<lparr>draws := stl (draws w)\<rparr>)"

definition new_Date :: "world \<Rightarrow> int \<times> world" where
  "new_Date w = (shd (clock w), w\<lparr>clock := stl (clock w)\<rparr>)"

definition msPerDay :: int where
  "msPerDay = 86400000"

definition maxTime :: int where
  "maxTime = 8640000000000000"

text \<open>
  \<^verbatim>\<open>const date = new Date(); date.setDate(date.getDate() - n);
  return date.toISOString().split("T")[0]\<close>.
  \<^verbatim>\<open>setDate\<close> works on local time: with \<open>t\<close> the local time,
  \<^verbatim>\<open>MakeDay(year, month, getDate() - n)\<close> is the day of \<open>t\<close> minus \<open>n\<close> and the time
  within the day is kept, so the new local time is \<open>t - n * msPerDay\<close>; it is
  converted back to UTC and clipped to the range of \<^verbatim>\<open>Date\<close>. \<^verbatim>\<open>toISOString\<close> throws
  a RangeError on a time value out of that range. The calendar date it prints is
  represented by its day number, the count of days since 1970-01-01 (UTC).
\<close>

definition setDate_days_ago :: "runtime \<Rightarrow> int \<Rightarrow> nat \<Rightarrow> int" where
  "setDate_days_ago rt tv n =
     (let t = tv + LocalTZA rt tv True;
          newDate = t - int n * msPerDay
      in newDate - LocalTZA rt newDate False)"

definition iso_date_days_ago :: "runtime \<Rightarrow> nat \<Rightarrow> world \<Rightarrow> js_error + (int \<times> world)" where
  "iso_date_days_ago rt n w =
     (let (tv, w') = new_Date w;
          u = setDate_days_ago rt tv n
      in if \<bar>u\<bar> \<le> maxTime then Inr (u div msPerDay, w') else Inl RangeError)"

text \<open>\<^verbatim>\<open>Array.from({ length: n }, (_, i) => f(i))\<close>: the callback runs for \<open>i = 0, \<dots>, n - 1\<close> in order.\<close>

fun Array_from_at ::
  "nat \<Rightarrow> nat \<Rightarrow> (nat \<Rightarrow> world \<Rightarrow> js_error + ('a \<times> world)) \<Rightarrow> world \<Rightarrow> js_error + ('a list \<times> world)" where
  "Array_from_at i 0 f w = Inr ([], w)"
| "Array_from_at i (Suc k) f w =
     err_bind (f i w) (\<lambda>(x, w').
     err_bind (Array_from_at (Suc i) k f w') (\<lambda>(xs, w'').
       Inr (x # xs, w'')))"

definition Array_from ::
  "nat \<Rightarrow> (nat \<Rightarrow> world \<Rightarrow> js_error + ('a \<times> world)) \<Rightarrow> world \<Rightarrow> js_error + ('a list \<times> world)" where
  "Array_from n f w = Array_from_at 0 n f w"

section \<open>The analysis result\<close>

text \<open>
  The type \<^verbatim>\<open>MockResponse\<close> of the handler. The fields \<^verbatim>\<open>min\<close> and \<^verbatim>\<open>max\<close> of
  \<^verbatim>\<open>ndvi_stats\<close> are \<open>min_value\<close> and \<open>max_value\<close> here, and the field \<^verbatim>\<open>dates\<close> of
  \<^verbatim>\<open>rainfall_data\<close> is \<open>rainfall_dates\<close>. A date is its day number.
\<close>

record NdviStats =
  mean :: real
  stddev :: real
  min_value :: real
  max_value :: real

record NdviTimeSeries =
  dates :: "int list"
  ndvi_values :: "real list"
  mean_ndvi :: real
  trend :: string

record RainfallData =
  rainfall_dates :: "int list"
  rainfall_values :: "real list"
  total_rainfall :: real
  avg_daily_rainfall :: real
  max_daily_rainfall :: real

record MockResponse =
  ndvi_stats :: NdviStats
  zones_identified :: json
  processing_time :: real
  recommendations :: "string list"
  ndvi_time_series :: NdviTimeSeries
  rainfall_data :: RainfallData
  crop_type :: "json option"
  crop_growth_stage :: "json option"
  ai_insights :: "json option"

text \<open>
  \<open>Ok200 m\<close> is \<^verbatim>\<open>NextResponse.json(m)\<close>, the answer with status 200 whose body is
  \<^verbatim>\<open>JSON.stringify(m)\<close>; \<open>Error500 e\<close> is
  \<^verbatim>\<open>NextResponse.json({ error: e }, { status: 500 })\<close>. In the body a field that is
  \<^verbatim>\<open>undefined\<close> (\<open>None\<close>) is left out, and the fields that the handler copies from the
  request are written as \<open>written\<close> says: \<open>as_written m\<close> is what a client reads back.
  The numbers the handler computes are finite.
\<close>

datatype http_response = Ok200 MockResponse | Error500 string

definition as_written :: "MockResponse \<Rightarrow> MockResponse" where
  "as_written m =
     m\<lparr>zones_identified := written (zones_identified m),
       crop_type := map_option written (crop_type m),
       crop_growth_stage := map_option written (crop_growth_stage m),
       ai_insights := map_option written (ai_insights m)\<rparr>"

section \<open>The handler\<close>

text \<open>
  A decimal literal of the source is the binary64 number nearest to it; the small whole
  numbers 3, 10, 15, 20 and the loop index are binary64 numbers as they are.
\<close>

definition ndvi_stats_of :: "world \<Rightarrow> NdviStats \<times> world" where
  "ndvi_stats_of w0 =
     (let (r1, w1) = Math_random w0;
          (r2, w2) = Math_random w1;
          (r3, w3) = Math_random w2;
          (r4, w4) = Math_random w3
      in (\<lparr>mean = plus64 (binary64 0.65) (times64 (minus64 r1 (binary64 0.5)) (binary64 0.2)),
           stddev = plus64 (binary64 0.12) (times64 (minus64 r2 (binary64 0.5)) (binary64 0.05)),
           min_value = plus64 (binary64 0.25) (times64 (minus64 r3 (binary64 0.5)) (binary64 0.1)),
           max_value = plus64 (binary64 0.85) (times64 (minus64 r4 (binary64 0.5)) (binary64 0.1))\<rparr>,
          w4))"

text \<open>The array literal of the recommendations; its third element is a template literal.\<close>

definition recommendations_of :: "runtime \<Rightarrow> json \<Rightarrow> js_error + string list" where
  "recommendations_of rt z =
     err_bind (ToString (Number_toString rt) z) (\<lambda>zones.
       Inr [''Field shows good overall vegetation health based on NDVI analysis.'',
            ''Focus on maintaining current management practices in high-vigor zones.'',
            ''Consider variable rate application based on the '' @ zones
              @ '' identified management zones.'',
            ''Take soil samples from each zone to determine specific nutrient requirements.'',
            ''Monitor low-vigor areas for potential stress factors or soil compaction.''])"

text \<open>\<^verbatim>\<open>0.3 + i * 0.1 + (Math.random() - 0.5) * 0.1\<close>\<close>

definition ndvi_value :: "nat \<Rightarrow> world \<Rightarrow> js_error + (real \<times> world)" where
  "ndvi_value i w =
     (let (r, w') = Math_random w
      in Inr (plus64 (plus64 (binary64 0.3) (times64 (real i) (binary64 0.1)))
                (times64 (minus64 r (binary64 0.5)) (binary64 0.1)), w'))"

definition ndvi_time_series_of :: "runtime \<Rightarrow> world \<Rightarrow> js_error + (NdviTimeSeries \<times> world)" where
  "ndvi_time_series_of rt w0 =
     err_bind (Array_from 7 (\<lambda>i. iso_date_days_ago rt ((6 - i) * 15)) w0) (\<lambda>(ds, w1).
     err_bind (Array_from 7 ndvi_value w1) (\<lambda>(vs, w2).
       let (r, w3) = Math_random w2
       in Inr (\<lparr>dates = ds, ndvi_values = vs, mean_ndvi = binary64 0.65,
                trend = (if binary64 0.5 < r then ''increasing'' else ''decreasing'')\<rparr>, w3)))"

definition rainfall_value :: "nat \<Rightarrow> world \<Rightarrow> js_error + (real \<times> world)" where
  "rainfall_value i w = (let (r, w') = Math_random w in Inr (times64 r 20, w'))"

definition rainfall_data_of :: "runtime \<Rightarrow> world \<Rightarrow> js_error + (RainfallData \<times> world)" where
  "rainfall_data_of rt w0 =
     err_bind (Array_from 10 (\<lambda>i. iso_date_days_ago rt (9 - i)) w0) (\<lambda>(ds, w1).
     err_bind (Array_from 10 rainfall_value w1) (\<lambda>(vs, w2).
       let (r1, w3) = Math_random w2;
           (r2, w4) = Math_random w3;
           (r3, w5) = Math_random w4
       in Inr (\<lparr>rainfall_dates = ds, rainfall_values = vs,
                total_rainfall = plus64 (binary64 43.2) (times64 r1 20),
                avg_daily_rainfall = plus64 (binary64 6.17) (times64 r2 3),
                max_daily_rainfall = plus64 (binary64 15.3) (times64 r3 10)\<rparr>, w5)))"

text \<open>
  The object literal \<^verbatim>\<open>mockResponse\<close>; its properties are evaluated in the order they
  are written, so the random draws and the clock readings are consumed in that order.
\<close>

definition mock_response :: "runtime \<Rightarrow> world \<Rightarrow> json \<Rightarrow> js_error + (MockResponse \<times> world)" where
  "mock_response rt w0 body =
     (let (stats, w1) = ndvi_stats_of w0 in
      err_bind (get_prop (Some body) ''num_zones'') (\<lambda>nz.
      let (r, w2) = Math_random w1 in
      err_bind (get_prop (Some body) ''num_zones'') (\<lambda>nz'.
      err_bind (recommendations_of rt (js_or nz' (JNum 3))) (\<lambda>recs.
      err_bind (ndvi_time_series_of rt w2) (\<lambda>(ts, w3).
      err_bind (rainfall_data_of rt w3) (\<lambda>(rf, w4).
      err_bind (get_prop (Some body) ''crop_type'') (\<lambda>ct.
      err_bind (get_prop (Some body) ''crop_growth_stage'') (\<lambda>cgs.
        Inr (\<lparr>ndvi_stats = stats,
              zones_identified = js_or nz (JNum 3),
              processing_time = plus64 (binary64 1.5) r,
              recommendations = recs,
              ndvi_time_series = ts,
              rainfall_data = rf,
              crop_type = ct,
              crop_growth_stage = cgs,
              ai_insights = None\<rparr>, w4)))))))))"

subsection \<open>The optional call of the text-generation service\<close>

text \<open>
  The outcome of \<^verbatim>\<open>fetch\<close> is an input of the model: the call is rejected (a network
  error), or it answers with a status that is \<^verbatim>\<open>ok\<close> or not and a body on which
  \<^verbatim>\<open>response.json()\<close> yields a value or rejects (\<open>None\<close>).
\<close>

datatype fetch_outcome = NetworkError | HttpResponse bool "json option"

text \<open>
  The template literal \<^verbatim>\<open>prompt\<close>. Its substitutions are converted to strings from left
  to right; those of \<^verbatim>\<open>zones_identified\<close>, \<^verbatim>\<open>crop_type\<close> and \<^verbatim>\<open>crop_growth_stage\<close> may throw.
  \<^verbatim>\<open>analysisData.rainfall_data\<close> is an object, so the line of the rainfall is there.
\<close>

definition prompt_of :: "runtime \<Rightarrow> MockResponse \<Rightarrow> js_error + string" where
  "prompt_of rt analysisData =
     (let num = Number_toString rt in
      err_bind (ToString (Number_toString rt) (zones_identified analysisData)) (\<lambda>zones.
      err_bind (ToString_opt (Number_toString rt) (crop_type analysisData)) (\<lambda>crop.
      err_bind (ToString_opt (Number_toString rt) (crop_growth_stage analysisData)) (\<lambda>stage.
        Inr (''\<newline>You are an agricultural expert analyzing NDVI field data. ''
          @ ''Based on the following analysis results, provide detailed insights:\<newline>''
          @ ''\<newline>Field Analysis Data:\<newline>''
          @ ''- Mean NDVI: '' @ num (mean (ndvi_stats analysisData)) @ ''\<newline>''
          @ ''- NDVI Range: '' @ num (min_value (ndvi_stats analysisData)) @ '' to ''
          @ num (max_value (ndvi_stats analysisData)) @ ''\<newline>''
          @ ''- Standard Deviation: '' @ num (stddev (ndvi_stats analysisData)) @ ''\<newline>''
          @ ''- Number of Management Zones: '' @ zones @ ''\<newline>''
          @ ''- Crop Type: '' @ crop @ ''\<newline>''
          @ ''- Growth Stage: '' @ stage @ ''\<newline>''
          @ ''- NDVI Trend: '' @ trend (ndvi_time_series analysisData) @ ''\<newline>''
          @ ''- Total Rainfall: '' @ num (total_rainfall (rainfall_data analysisData))
          @ ''mm\<newline>''
          @ ''\<newline>Please provide:\<newline>''
          @ ''1. A comprehensive field analysis report (2-3 paragraphs)\<newline>''
          @ ''2. Specific management suggestions (3-5 actionable items)\<newline>''
          @ ''3. Risk assessment for potential issues\<newline>''
          @ ''4. A detailed management plan for the next 30 days\<newline>''
          @ ''\<newline>Format your response as JSON with keys: report, suggestions (array), ''
          @ ''risk_assessment, management_plan\<newline>'')))))"

text \<open>\<^verbatim>\<open>data.choices[0].message.content\<close>\<close>

definition read_content :: "json \<Rightarrow> js_error + json option" where
  "read_content data =
     err_bind (get_prop (Some data) ''choices'') (\<lambda>choices.
     err_bind (get_prop choices ''0'') (\<lambda>choice.
     err_bind (get_prop choice ''message'') (\<lambda>message.
       get_prop message ''content'')))"

definition fallback_insights :: "json option \<Rightarrow> json" where
  "fallback_insights aiResponse =
     JObj ((case aiResponse of None \<Rightarrow> [] | Some v \<Rightarrow> [(''report'', v)]) @
       [(''suggestions'', JArr [JStr ''Monitor field conditions regularly'',
           JStr ''Consider soil testing in low-performing areas'',
           JStr ''Implement variable rate application based on zones'']),
        (''risk_assessment'',
           JStr ''Based on the analysis, monitor for potential stress indicators.''),
        (''management_plan'',
           JStr ''Continue current management practices and monitor field development.'')])"

text \<open>
  The body of the outer \<^verbatim>\<open>try\<close>: every exception is an \<open>Inl\<close>. The prompt and the
  header \<^verbatim>\<open>Bearer ${groqApiKey}\<close> are built before \<^verbatim>\<open>fetch\<close> is called. A rejected
  \<^verbatim>\<open>fetch\<close> raises a TypeError, a status that is not \<^verbatim>\<open>ok\<close> the \<^verbatim>\<open>Error\<close> the source
  throws, a body that is not JSON a SyntaxError. The inner \<^verbatim>\<open>try\<close> around \<^verbatim>\<open>JSON.parse\<close>
  turns its exception into the fallback object.
\<close>

definition insights_attempt ::
  "runtime \<Rightarrow> fetch_outcome \<Rightarrow> MockResponse \<Rightarrow> json option \<Rightarrow> js_error + json" where
  "insights_attempt rt ext analysisData groqApiKey =
     err_bind (prompt_of rt analysisData) (\<lambda>prompt.
     err_bind (ToString_opt (Number_toString rt) groqApiKey) (\<lambda>bearer.
       (case ext of
          NetworkError \<Rightarrow> Inl TypeError
        | HttpResponse ok received \<Rightarrow>
            if \<not> ok then Inl (Error ''Failed to generate AI insights'')
            else
              err_bind (case received of None \<Rightarrow> Inl SyntaxError | Some data \<Rightarrow> Inr data) (\<lambda>data.
              err_bind (read_content data) (\<lambda>aiResponse.
                (case JSON_parse rt aiResponse of
                   Inr v \<Rightarrow> Inr v
                 | Inl e \<Rightarrow> Inr (fallback_insights aiResponse)))))))"

text \<open>The outer \<^verbatim>\<open>catch\<close> logs the error and returns \<^verbatim>\<open>null\<close>, which is \<open>JNull\<close> here.\<close>

definition generateAIInsights :: "runtime \<Rightarrow> fetch_outcome \<Rightarrow> MockResponse \<Rightarrow> json option \<Rightarrow> json" where
  "generateAIInsights rt ext analysisData groqApiKey =
     (case insights_attempt rt ext analysisData groqApiKey of Inl error \<Rightarrow> JNull | Inr v \<Rightarrow> v)"

text \<open>
  The handler. \<open>request_json\<close> is the outcome of \<^verbatim>\<open>await request.json()\<close>: \<open>None\<close> when
  the body is not JSON. Every exception ends in the \<^verbatim>\<open>catch\<close> that answers with
  status 500. The two seconds the handler waits and what it logs are not part of the
  model.
\<close>

definition POST :: "runtime \<Rightarrow> fetch_outcome \<Rightarrow> world \<Rightarrow> json option \<Rightarrow> http_response" where
  "POST rt ext w request_json =
     (case request_json of
        None \<Rightarrow> Error500 ''Analysis failed''
      | Some body \<Rightarrow>
          (case
             err_bind (mock_response rt w body) (\<lambda>(mockResponse, w').
             err_bind (get_prop (Some body) ''use_ai_insights'') (\<lambda>use_ai.
             err_bind (if truthy use_ai then get_prop (Some body) ''groq_api_key''
                       else Inr use_ai) (\<lambda>requested.
               if truthy requested
               then (let aiInsights = generateAIInsights rt ext mockResponse requested
                     in Inr (if truthy (Some aiInsights)
                             then mockResponse\<lparr>ai_insights := Some aiInsights\<rparr>
                             else mockResponse))
               else Inr mockResponse)))
           of Inl e \<Rightarrow> Error500 ''Analysis failed''
            | Inr res \<Rightarrow> Ok200 res))"

section \<open>The zone list of the page\<close>

text \<open>
  The card "Field Zones" of \<^verbatim>\<open>src/frontend/app/page.tsx\<close>:
  \<^verbatim>\<open>Array.from({ length: results.zones_identified }, (_, i) => ...)\<close> renders one row
  \<^verbatim>\<open>Zone {i + 1}: {label}\<close> per index. The page declares \<^verbatim>\<open>zones_identified\<close> a number;
  \<^verbatim>\<open>ToLength\<close> truncates it and takes a negative length as 0. Below, \<open>n\<close> is
  \<^verbatim>\<open>results.zones_identified\<close>.
\<close>

definition ToLength :: "real \<Rightarrow> nat" where
  "ToLength x = nat \<lfloor>x\<rfloor>"

definition zone_label :: "real \<Rightarrow> nat \<Rightarrow> string" where
  "zone_label n i =
     (if i = 0 then ''Low vigor''
      else if real i = n - 1 then ''High vigor''
      else ''Moderate vigor'')"

definition field_zones :: "real \<Rightarrow> (nat \<times> string) list" where
  "field_zones n =
     map (\<lambda>i. (i + 1, zone_label n i)) [0..<ToLength n]"

text \<open>
  Modelled from the spec: the segmentation engine itself is not among the sources, which
  only carry the number of zones. The spec's \<open>Zone\<close> is
  \<^verbatim>\<open>{ id: integer >= 1, member_samples, centroid_value, label }\<close>, and "resulting zones
  are ordered by ascending centroid value, so zone id 1 is always the lowest-vigor zone
  and the last id the highest-vigor zone". \<open>order_zones\<close> takes the clusters a strategy
  found, each a centroid with its member values, and numbers them from 1 in ascending
  order of centroid.
\<close>

record Zone =
  zone_id :: nat
  member_samples :: "real list"
  centroid_value :: real

definition order_zones :: "(real \<times> real list) list \<Rightarrow> Zone list" where
  "order_zones clusters =
     map (\<lambda>(i, c). \<lparr>zone_id = i + 1, member_samples = snd c, centroid_value = fst c\<rparr>)
       (enumerate 0 (sort_key fst clusters))"

section \<open>Conditions on the environment and on the request\<close>

text \<open>Every draw of \<^verbatim>\<open>Math.random()\<close> lies in \<open>[0, 1)\<close>.\<close>

definition unit_draws :: "world \<Rightarrow> bool" where
  "unit_draws w \<longleftrightarrow> (\<forall>r\<in>sset (draws w). 0 \<le> r \<and> r < 1)"

text \<open>Local time is never more than a day away from UTC.\<close>

definition tz_bounded :: "runtime \<Rightarrow> bool" where
  "tz_bounded rt \<longleftrightarrow> (\<forall>t isUTC. \<bar>LocalTZA rt t isUTC\<bar> \<le> msPerDay)"

text \<open>Between two successive readings the clock never steps back by more than a day.\<close>

definition clock_steady :: "world \<Rightarrow> bool" where
  "clock_steady w \<longleftrightarrow> (\<forall>i. clock w !! i - msPerDay \<le> clock w !! Suc i)"

text \<open>The clock stays a hundred days inside the range of \<^verbatim>\<open>Date\<close>.\<close>

definition clock_in_range :: "world \<Rightarrow> bool" where
  "clock_in_range w \<longleftrightarrow> (\<forall>t\<in>sset (clock w). \<bar>t\<bar> + 100 * msPerDay \<le> maxTime)"

text \<open>
  The dates that \<open>k\<close> successive calls of \<open>iso_date_days_ago\<close> print, the \<open>j\<close>-th with
  offset \<open>c j\<close>, are all in the range of \<^verbatim>\<open>Date\<close>.
\<close>

definition printable :: "runtime \<Rightarrow> int stream \<Rightarrow> (nat \<Rightarrow> nat) \<Rightarrow> nat \<Rightarrow> bool" where
  "printable rt ts c k \<longleftrightarrow> (\<forall>j<k. \<bar>setDate_days_ago rt (ts !! j) (c j)\<bar> \<le> maxTime)"

text \<open>
  The call of the text-generation service fails: a network error, a status that is not
  \<^verbatim>\<open>ok\<close>, or an exception while the answer is read (\<^verbatim>\<open>response.json()\<close> rejects, or
  \<^verbatim>\<open>data.choices[0].message.content\<close> reads a property of \<^verbatim>\<open>undefined\<close> or \<^verbatim>\<open>null\<close>).
\<close>

definition call_failed :: "fetch_outcome \<Rightarrow> bool" where
  "call_failed ext =
     (case ext of
        NetworkError \<Rightarrow> True
      | HttpResponse ok received \<Rightarrow>
          \<not> ok \<or> (case received of
                     None \<Rightarrow> True
                   | Some data \<Rightarrow> (case read_content data of Inl e \<Rightarrow> True | Inr c \<Rightarrow> False)))"

text \<open>
  The values \<^verbatim>\<open>JSON.parse\<close> can return: every finite number in them is a binary64
  number.
\<close>

fun well_formed :: "json \<Rightarrow> bool" where
  "well_formed (JNum x) = is_binary64 x"
| "well_formed (JArr xs) = list_all well_formed xs"
| "well_formed (JObj kvs) = list_all (\<lambda>(k, v). well_formed v) kvs"
| "well_formed v = True"

text \<open>
  The values whose conversion to a string does not throw (\<open>renders_iff\<close> below): no
  object with an own property \<^verbatim>\<open>toString\<close>, and no array that holds one.
\<close>

fun renders :: "json \<Rightarrow> bool" where
  "renders (JArr xs) = list_all renders xs"
| "renders (JObj kvs) = (map_of kvs ''toString'' = None)"
| "renders v = True"

text \<open>The values that hold no number that overflowed.\<close>

fun finite_json :: "json \<Rightarrow> bool" where
  "finite_json (JInf positive) = False"
| "finite_json (JArr xs) = list_all finite_json xs"
| "finite_json (JObj kvs) = list_all (\<lambda>(k, v). finite_json v) kvs"
| "finite_json v = True"

text \<open>A zone count \<open>k \<le> 0\<close>: a finite number that is not positive, or \<^verbatim>\<open>-Infinity\<close>.\<close>

fun nonpositive_number :: "json \<Rightarrow> bool" where
  "nonpositive_number (JNum k) = (is_binary64 k \<and> k \<le> 0)"
| "nonpositive_number (JInf positive) = (\<not> positive)"
| "nonpositive_number v = False"

text \<open>
  The rounding of the handler's arithmetic stays far below this bound: each number of the
  answer comes from at most six operations on numbers below 64, each of which is off by
  at most \<open>2 ^ 6 / 2 ^ 53\<close>.
\<close>

definition slack :: real where
  "slack = 1 / 10 ^ 13"

section \<open>A concrete environment\<close>

text \<open>
  A server whose local time is UTC. The decimal rendering is that of
  \<^verbatim>\<open>Number::toString\<close> on integers. The evaluations below depend on the rendering of
  integers only: other numbers are rendered in the prompt, whose text goes to the
  service and has no part in the answer. No text reaches \<^verbatim>\<open>JSON.parse\<close> in them.
\<close>

fun decimal_nat :: "nat \<Rightarrow> string" where
  "decimal_nat n =
     (if n < 10 then [''0123456789'' ! n]
      else decimal_nat (n div 10) @ [''0123456789'' ! (n mod 10)])"

declare decimal_nat.simps [simp del]

definition decimal :: "int \<Rightarrow> string" where
  "decimal k = (if k < 0 then CHR ''-'' # decimal_nat (nat (- k)) else decimal_nat (nat k))"

definition utc_runtime :: runtime where
  "utc_runtime =
     \<lparr>LocalTZA = (\<lambda>t isUTC. 0),
      Number_toString = (\<lambda>x. decimal \<lfloor>x\<rfloor>),
      JSON_parse = (\<lambda>v. Inl SyntaxError)\<rparr>"

text \<open>Every draw is \<open>r\<close> and every clock reading is \<open>t\<close>.\<close>

definition constant_world :: "real \<Rightarrow> int \<Rightarrow> world" where
  "constant_world r t = \<lparr>draws = sconst r, clock = sconst t\<rparr>"

text \<open>2026-11-02T12:00:00Z, day 20759 since the epoch.\<close>

definition noon :: int where
  "noon = 20759 * 86400000 + 43200000"

text \<open>
  A server whose clock is set back by twenty days after the first reading of a request.
\<close>

definition clock_set_back :: world where
  "clock_set_back = \<lparr>draws = sconst 0, clock = noon ## sconst (noon - 20 * msPerDay)\<rparr>"

text \<open>
  Every draw is 0 but draw 6, which is \<open>1 - 2 ^ - 52\<close>, a binary64 number just below 1.
\<close>

definition near_one_world :: world where
  "near_one_world = \<lparr>draws = replicate 6 0 @- ((1 - 1 / 2 ^ 52) ## sconst 0), clock = sconst noon\<rparr>"

text \<open>Two request bodies: one that asks for the generated report, one of the page's form.\<close>

definition ai_request :: json where
  "ai_request = JObj [(''use_ai_insights'', JBool True), (''groq_api_key'', JStr ''gsk'')]"

definition wheat_request :: json where
  "wheat_request =
     JObj [(''num_zones'', JNum 5), (''crop_type'', JStr ''Wheat''),
           (''crop_growth_stage'', JStr ''Vegetative'')]"

section \<open>The handler in closed form\<close>

text \<open>
  One request makes 26 calls of \<^verbatim>\<open>Math.random()\<close> and 17 of \<^verbatim>\<open>new Date()\<close>. Counting
  from 0, draws 0 to 3 give the statistics, draw 4 the processing time, draws 5 to 11
  the NDVI values, draw 12 the trend, draws 13 to 22 the rainfall values and draws 23 to
  25 the rainfall totals; clock readings 0 to 6 give the dates of the NDVI series and
  readings 7 to 16 those of the rainfall series. The definitions of this section state
  each part of the answer in terms of the stream \<open>s\<close> of draws and the stream \<open>ts\<close>
  of clock readings at the start of the request; \<open>mock_response_eq\<close> and \<open>POST_eq\<close>
  below prove that the handler computes them.
\<close>

text \<open>\<^verbatim>\<open>b + (r - 0.5) * a\<close> for a draw \<open>r\<close>, with \<open>b\<close> computed and \<open>a\<close> a literal.\<close>

definition spread :: "real \<Rightarrow> real \<Rightarrow> real \<Rightarrow> real" where
  "spread b r a = plus64 b (times64 (minus64 r (binary64 0.5)) (binary64 a))"

text \<open>\<^verbatim>\<open>c + r * k\<close> for a draw \<open>r\<close>, with \<open>c\<close> a literal and \<open>k\<close> a whole number.\<close>

definition scaled :: "real \<Rightarrow> real \<Rightarrow> real \<Rightarrow> real" where
  "scaled c r k = plus64 (binary64 c) (times64 r k)"

definition stats_at :: "real stream \<Rightarrow> NdviStats" where
  "stats_at s =
     \<lparr>mean = spread (binary64 0.65) (s !! 0) 0.2,
      stddev = spread (binary64 0.12) (s !! 1) 0.05,
      min_value = spread (binary64 0.25) (s !! 2) 0.1,
      max_value = spread (binary64 0.85) (s !! 3) 0.1\<rparr>"

definition ndvi_at :: "nat \<Rightarrow> real \<Rightarrow> real" where
  "ndvi_at i r = spread (plus64 (binary64 0.3) (times64 (real i) (binary64 0.1))) r 0.1"

definition series_at :: "runtime \<Rightarrow> real stream \<Rightarrow> int stream \<Rightarrow> NdviTimeSeries" where
  "series_at rt s ts =
     \<lparr>dates = map (\<lambda>j. setDate_days_ago rt (ts !! j) ((6 - j) * 15) div msPerDay) [0..<7],
      ndvi_values = map (\<lambda>j. ndvi_at j (s !! (5 + j))) [0..<7],
      mean_ndvi = binary64 0.65,
      trend = (if 1 / 2 < s !! 12 then ''increasing'' else ''decreasing'')\<rparr>"

definition rainfall_at :: "runtime \<Rightarrow> real stream \<Rightarrow> int stream \<Rightarrow> RainfallData" where
  "rainfall_at rt s ts =
     \<lparr>rainfall_dates = map (\<lambda>j. setDate_days_ago rt (ts !! (7 + j)) (9 - j) div msPerDay) [0..<10],
      rainfall_values = map (\<lambda>j. times64 (s !! (13 + j)) 20) [0..<10],
      total_rainfall = scaled 43.2 (s !! 23) 20,
      avg_daily_rainfall = scaled 6.17 (s !! 24) 3,
      max_daily_rainfall = scaled 15.3 (s !! 25) 10\<rparr>"

text \<open>The property \<open>k\<close> of a request body that is not \<^verbatim>\<open>null\<close>.\<close>

definition prop_of :: "json \<Rightarrow> string \<Rightarrow> json option" where
  "prop_of body k = (case get_prop (Some body) k of Inl e \<Rightarrow> None | Inr v \<Rightarrow> v)"

text \<open>\<^verbatim>\<open>body.num_zones || 3\<close>, and the recommendations that cite it when it renders.\<close>

definition zone_count :: "json \<Rightarrow> json" where
  "zone_count body = js_or (prop_of body ''num_zones'') (JNum 3)"

definition recommendations_at :: "runtime \<Rightarrow> json \<Rightarrow> string list" where
  "recommendations_at rt body =
     (case recommendations_of rt (zone_count body) of Inl e \<Rightarrow> [] | Inr recs \<Rightarrow> recs)"

definition mock_at :: "runtime \<Rightarrow> world \<Rightarrow> json \<Rightarrow> MockResponse" where
  "mock_at rt w body =
     \<lparr>ndvi_stats = stats_at (draws w),
      zones_identified = zone_count body,
      processing_time = plus64 (binary64 1.5) (draws w !! 4),
      recommendations = recommendations_at rt body,
      ndvi_time_series = series_at rt (draws w) (clock w),
      rainfall_data = rainfall_at rt (draws w) (clock w),
      crop_type = prop_of body ''crop_type'',
      crop_growth_stage = prop_of body ''crop_growth_stage'',
      ai_insights = None\<rparr>"

text \<open>No date of the request is out of the range of \<^verbatim>\<open>Date\<close>.\<close>

definition dates_printable :: "runtime \<Rightarrow> world \<Rightarrow> bool" where
  "dates_printable rt w \<longleftrightarrow>
     printable rt (clock w) (\<lambda>i. (6 - i) * 15) 7 \<and> printable rt (sdrop 7 (clock w)) (\<lambda>i. 9 - i) 10"

text \<open>The last step of the handler, on the object \<open>m\<close> built so far.\<close>

definition insights_step :: "runtime \<Rightarrow> fetch_outcome \<Rightarrow> json \<Rightarrow> MockResponse \<Rightarrow> MockResponse" where
  "insights_step rt ext body m =
     (let use_ai = prop_of body ''use_ai_insights'';
          requested = (if truthy use_ai then prop_of body ''groq_api_key'' else use_ai)
      in if truthy requested
         then (let aiInsights = generateAIInsights rt ext m requested
               in if truthy (Some aiInsights) then m\<lparr>ai_insights := Some aiInsights\<rparr> else m)
         else m)"

section \<open>Lemmas\<close>

subsection \<open>Rounding\<close>

lemma exponent2_bounds:
  assumes "x \<noteq> 0"
  shows "2 powi exponent2 x \<le> \<bar>x\<bar> \<and> \<bar>x\<bar> < 2 powi (exponent2 x + 1)"
proof (cases "1 \<le> \<bar>x\<bar>")
  case True
  define n where "n = \<lfloor>\<bar>x\<bar>\<rfloor>"
  have n: "0 < n" using True by (simp add: n_def)
  have e: "exponent2 x = bitlen n - 1" using True by (simp add: exponent2_def n_def)
  from bitlen_bounds [OF n] have b: "2 ^ nat (bitlen n - 1) \<le> n" "n < 2 ^ nat (bitlen n)"
    by simp_all
  have p: "1 \<le> bitlen n" using n by (simp add: bitlen_alt_def)
  have "real_of_int (2 ^ nat (bitlen n - 1)) \<le> real_of_int n"
    using b(1) by linarith
  also have "\<dots> \<le> \<bar>x\<bar>" by (simp add: n_def)
  finally have lo: "2 powi exponent2 x \<le> \<bar>x\<bar>"
    using p by (simp add: e power_int_def)
  have "\<bar>x\<bar> < real_of_int n + 1" by (simp add: n_def)
  also have "\<dots> \<le> real_of_int (2 ^ nat (bitlen n))"
    using b(2) by linarith
  finally have "\<bar>x\<bar> < 2 powi (exponent2 x + 1)"
    using p by (simp add: e power_int_def)
  with lo show ?thesis by simp
next
  case False
  define y where "y = 1 / \<bar>x\<bar>"
  define m where "m = \<lceil>y\<rceil> - 1"
  have x: "0 < \<bar>x\<bar>" "\<bar>x\<bar> < 1" using assms False by simp_all
  then have y: "1 < y" by (simp add: y_def)
  then have m: "0 < m" by (simp add: m_def)
  have e: "exponent2 x = - bitlen m" using False by (simp add: exponent2_def m_def y_def)
  from bitlen_bounds [OF m] have b: "2 ^ nat (bitlen m - 1) \<le> m" "m < 2 ^ nat (bitlen m)"
    by simp_all
  have p: "1 \<le> bitlen m" using m by (simp add: bitlen_alt_def)
  have "y \<le> real_of_int m + 1" by (simp add: m_def)
  also have "\<dots> \<le> real_of_int (2 ^ nat (bitlen m))" using b(2) by linarith
  finally have "y \<le> 2 ^ nat (bitlen m)" by simp
  then have "1 / 2 ^ nat (bitlen m) \<le> \<bar>x\<bar>"
    using x(1) by (simp add: y_def field_simps)
  then have lo: "2 powi exponent2 x \<le> \<bar>x\<bar>"
    using p by (simp add: e power_int_def field_simps)
  have "real_of_int (2 ^ nat (bitlen m - 1)) \<le> real_of_int m" using b(1) by linarith
  also have "real_of_int m < y" by (simp add: m_def) linarith
  finally have "2 ^ nat (bitlen m - 1) < y" by simp
  then have "\<bar>x\<bar> < 1 / 2 ^ nat (bitlen m - 1)"
    using x(1) by (simp add: y_def field_simps)
  moreover have "(2 :: real) powi (exponent2 x + 1) = 1 / 2 ^ nat (bitlen m - 1)"
  proof (cases "bitlen m = 1")
    case True
    then show ?thesis by (simp add: e)
  next
    case False
    with p have "exponent2 x + 1 < 0" and "nat (- (exponent2 x + 1)) = nat (bitlen m - 1)"
      by (simp_all add: e)
    then show ?thesis by (simp add: power_int_def field_simps)
  qed
  ultimately have "\<bar>x\<bar> < 2 powi (exponent2 x + 1)" by simp
  with lo show ?thesis by simp
qed

lemma round_half_even_error: "\<bar>of_int (round_half_even y) - y\<bar> \<le> 1 / 2"
  unfolding round_half_even_def Let_def by (auto simp: abs_le_iff; linarith)

lemma round_half_even_le: "y \<le> of_int n \<Longrightarrow> round_half_even y \<le> n"
  unfolding round_half_even_def Let_def by (auto simp: not_less; linarith)

lemma round_half_even_ge: "of_int n \<le> y \<Longrightarrow> n \<le> round_half_even y"
  unfolding round_half_even_def Let_def by (auto simp: not_less; linarith)

lemma quantum_pos: "0 < quantum x"
  by (simp add: quantum_def)

lemma binary64_error: "\<bar>binary64 x - x\<bar> \<le> quantum x / 2"
proof (cases "x = 0")
  case True
  then show ?thesis using quantum_pos [of x] by (simp add: binary64_def)
next
  case False
  have q: "0 < quantum x" by (rule quantum_pos)
  define r where "r = real_of_int (round_half_even (x / quantum x))"
  have "\<bar>r - x / quantum x\<bar> * quantum x \<le> 1 / 2 * quantum x"
    unfolding r_def using round_half_even_error [of "x / quantum x"] q
    by (intro mult_right_mono) simp_all
  moreover have "\<bar>r - x / quantum x\<bar> * quantum x = \<bar>(r - x / quantum x) * quantum x\<bar>"
    using q by (simp add: abs_mult)
  moreover have "(r - x / quantum x) * quantum x = r * quantum x - x"
    using q by (simp add: field_simps)
  moreover have "binary64 x = r * quantum x"
    using False by (simp add: binary64_def r_def)
  ultimately show ?thesis by simp
qed

lemma quantum_le:
  assumes "x \<noteq> 0" and "\<bar>x\<bar> \<le> 2 powi k" and "- 1022 \<le> k"
  shows "quantum x \<le> 2 powi (k - 52)"
proof -
  from exponent2_bounds [OF assms(1)] assms(2)
  have le: "(2 :: real) powi exponent2 x \<le> 2 powi k"
    by linarith
  have "exponent2 x \<le> k"
  proof (rule ccontr)
    assume "\<not> exponent2 x \<le> k"
    then have "(2 :: real) powi k < 2 powi exponent2 x"
      by (intro power_int_strict_increasing) simp_all
    with le show False by simp
  qed
  with assms(3) have "max (exponent2 x) (- 1022) - 52 \<le> k - 52"
    by simp
  then show ?thesis
    unfolding quantum_def by (intro power_int_increasing) simp_all
qed

lemma binary64_error_le:
  assumes "\<bar>x\<bar> \<le> 2 powi k" and "- 1022 \<le> k"
  shows "\<bar>binary64 x - x\<bar> \<le> 2 powi (k - 53)"
proof (cases "x = 0")
  case True
  then show ?thesis by (simp add: binary64_def)
next
  case False
  have "quantum x / 2 \<le> 2 powi (k - 52) / 2"
    using quantum_le [OF False assms] by simp
  also have "\<dots> = 2 powi (k - 53)"
    by (simp add: power_int_diff)
  finally show ?thesis
    using binary64_error [of x] by linarith
qed

lemma binary64_nonneg: "0 \<le> x \<Longrightarrow> 0 \<le> binary64 x"
  using round_half_even_ge [of 0 "x / quantum x"] quantum_pos [of x]
  by (simp add: binary64_def)

lemma binary64_zero [simp]: "binary64 0 = 0"
  by (simp add: binary64_def)

lemma round_unit: "\<bar>x\<bar> \<le> 1 \<Longrightarrow> \<bar>binary64 x - x\<bar> \<le> 1 / 2 ^ 53"
  using binary64_error_le [of x 0] by (simp add: power_int_minus field_simps)

lemma round_64: "\<bar>x\<bar> \<le> 64 \<Longrightarrow> \<bar>binary64 x - x\<bar> \<le> 1 / 2 ^ 47"
  using binary64_error_le [of x 6] by (simp add: power_int_minus field_simps)

lemma mult_error:
  fixes x y x' y' :: real
  assumes "\<bar>x' - x\<bar> \<le> ex" and "\<bar>y' - y\<bar> \<le> ey" and "\<bar>x\<bar> \<le> X" and "\<bar>y'\<bar> \<le> Y"
  shows "\<bar>x' * y' - x * y\<bar> \<le> ex * Y + X * ey"
proof -
  have "x' * y' - x * y = (x' - x) * y' + x * (y' - y)"
    by (simp add: algebra_simps)
  then have "\<bar>x' * y' - x * y\<bar> \<le> \<bar>x' - x\<bar> * \<bar>y'\<bar> + \<bar>x\<bar> * \<bar>y' - y\<bar>"
    by (simp add: abs_mult [symmetric]) 
  also have "\<dots> \<le> ex * Y + X * ey"
    using assms by (intro add_mono mult_mono) (auto intro: order_trans [OF abs_ge_zero])
  finally show ?thesis .
qed

lemma binary64_le_int:
  assumes "x \<le> of_int n" and "0 < x" and "x < 2 ^ 53"
  shows "binary64 x \<le> of_int n"
proof -
  have x0: "x \<noteq> 0" using assms(2) by simp
  define e where "e = max (exponent2 x) (- 1022) - 52"
  have q: "quantum x = 2 powi e" by (simp add: quantum_def e_def)
  from exponent2_bounds [OF x0] assms(2, 3) have "(2 :: real) powi exponent2 x < 2 powi 53"
    by simp
  have "exponent2 x < 53"
  proof (rule ccontr)
    assume "\<not> exponent2 x < 53"
    then have "(2 :: real) powi 53 \<le> 2 powi exponent2 x"
      by (intro power_int_increasing) simp_all
    with \<open>(2 :: real) powi exponent2 x < 2 powi 53\<close> show False by simp
  qed
  then have e: "e \<le> 0" by (simp add: e_def)
  define m where "m = nat (- e)"
  have qm: "quantum x = 1 / 2 ^ m"
    using e by (simp add: q m_def power_int_def field_simps)
  have "x / quantum x \<le> of_int n / quantum x"
    using assms(1) quantum_pos [of x] by (simp add: divide_right_mono)
  also have "of_int n / quantum x = of_int (n * 2 ^ m)"
    by (simp add: qm)
  finally have "round_half_even (x / quantum x) \<le> n * 2 ^ m"
    by (rule round_half_even_le)
  then have "real_of_int (round_half_even (x / quantum x)) \<le> real_of_int (n * 2 ^ m)"
    by linarith
  then have "real_of_int (round_half_even (x / quantum x)) * quantum x \<le> real_of_int (n * 2 ^ m) * quantum x"
    using quantum_pos [of x] by (simp add: mult_right_mono)
  also have "real_of_int (n * 2 ^ m) * quantum x = of_int n"
    by (simp add: qm)
  finally show ?thesis
    using x0 by (simp add: binary64_def)
qed

lemma exponent2_eqI:
  assumes "2 powi e \<le> \<bar>x\<bar>" and "\<bar>x\<bar> < 2 powi (e + 1)"
  shows "exponent2 x = e"
proof -
  have "x \<noteq> 0"
  proof
    assume "x = 0"
    with assms(1) have "(2 :: real) powi e \<le> 0"
      by simp
    moreover have "(0 :: real) < 2 powi e"
      by simp
    ultimately show False
      by linarith
  qed
  note b = exponent2_bounds [OF this]
  have "\<not> exponent2 x < e"
  proof
    assume "exponent2 x < e"
    then have "(2 :: real) powi (exponent2 x + 1) \<le> 2 powi e"
      by (intro power_int_increasing) simp_all
    with b assms(1) show False by linarith
  qed
  moreover have "\<not> e < exponent2 x"
  proof
    assume "e < exponent2 x"
    then have "(2 :: real) powi (e + 1) \<le> 2 powi exponent2 x"
      by (intro power_int_increasing) simp_all
    with b assms(2) show False by linarith
  qed
  ultimately show ?thesis
    by simp
qed

lemma round_half_even_eqI:
  assumes "\<bar>y - of_int n\<bar> < 1 / 2"
  shows "round_half_even y = n"
proof -
  define f where "f = \<lfloor>y\<rfloor>"
  have f: "of_int f \<le> y" "y < of_int f + 1"
    by (simp_all add: f_def)
  with assms have "f = n \<or> f = n - 1"
    by linarith
  then show ?thesis
  proof
    assume "f = n"
    with assms f show ?thesis
      by (simp add: round_half_even_def Let_def f_def [symmetric] abs_less_iff)
  next
    assume "f = n - 1"
    with assms f show ?thesis
      by (simp add: round_half_even_def Let_def f_def [symmetric] abs_less_iff)
  qed
qed

lemma round_half_even_tie:
  "y = of_int f + 1 / 2 \<Longrightarrow> round_half_even y = (if even f then f else f + 1)"
proof -
  assume y: "y = of_int f + 1 / 2"
  have "\<lfloor>y\<rfloor> = f"
    unfolding y by linarith
  then show ?thesis
    by (simp add: round_half_even_def Let_def y)
qed

lemma binary64_normal:
  assumes "2 ^ 52 \<le> \<bar>x\<bar> * 2 ^ m" and "\<bar>x\<bar> * 2 ^ m < 2 ^ 53" and "m \<le> 1074"
  shows "binary64 x = of_int (round_half_even (x * 2 ^ m)) / 2 ^ m"
proof -
  define e where "e = 52 - int m"
  have p: "(2 :: real) powi e = 2 ^ 52 / 2 ^ m" "(2 :: real) powi (e + 1) = 2 ^ 53 / 2 ^ m"
    by (simp_all add: e_def power_int_diff power_int_add)
  have "2 powi e \<le> \<bar>x\<bar>" and "\<bar>x\<bar> < 2 powi (e + 1)"
    unfolding p using assms(1, 2) by (simp_all add: field_simps)
  then have "exponent2 x = e"
    by (rule exponent2_eqI)
  then have "quantum x = 2 powi (- int m)"
    using assms(3) by (simp add: quantum_def e_def max_def)
  then have q: "quantum x = 1 / 2 ^ m"
    by (simp add: power_int_minus field_simps)
  have "x \<noteq> 0"
    using assms(1) by auto
  then show ?thesis
    by (simp add: binary64_def q)
qed

lemma binary64_eqI:
  assumes "2 ^ 52 \<le> \<bar>x\<bar> * 2 ^ m" and "\<bar>x\<bar> * 2 ^ m < 2 ^ 53" and "m \<le> 1074"
    and "\<bar>x * 2 ^ m - of_int n\<bar> < 1 / 2"
  shows "binary64 x = of_int n / 2 ^ m"
  using binary64_normal [OF assms(1-3)] round_half_even_eqI [OF assms(4)] by simp

lemma binary64_tieI:
  assumes "2 ^ 52 \<le> \<bar>x\<bar> * 2 ^ m" and "\<bar>x\<bar> * 2 ^ m < 2 ^ 53" and "m \<le> 1074"
    and "x * 2 ^ m = of_int f + 1 / 2"
  shows "binary64 x = of_int (if even f then f else f + 1) / 2 ^ m"
  using binary64_normal [OF assms(1-3)] round_half_even_tie [OF assms(4)] by simp

lemma binary64_overflow:
  assumes "2 ^ 1024 \<le> \<bar>x\<bar>"
  shows "2 ^ 1024 \<le> \<bar>binary64 x\<bar>"
proof -
  have x0: "x \<noteq> 0"
    using assms by auto
  define e where "e = exponent2 x"
  note b = exponent2_bounds [OF x0, folded e_def]
  have e: "1024 \<le> e"
  proof (rule ccontr)
    assume "\<not> 1024 \<le> e"
    then have "(2 :: real) powi (e + 1) \<le> 2 powi 1024"
      by (intro power_int_increasing) simp_all
    with b assms show False by simp
  qed
  define q :: real where "q = 2 powi (e - 52)"
  have q: "quantum x = q" "0 < q"
    using e by (simp_all add: quantum_def q_def e_def [symmetric] max_def)
  have pe: "(2 :: real) powi e = 2 ^ 52 * q"
    by (simp add: q_def power_int_diff)
  have big: "(2 :: real) ^ 1024 \<le> 2 ^ 52 * q"
    unfolding pe [symmetric] using power_int_increasing [of 1024 e "2 :: real"] e by simp
  have le: "2 ^ 52 \<le> \<bar>x\<bar> / q"
    using b q(2) by (simp add: pe field_simps)
  have "2 ^ 52 * q \<le> \<bar>binary64 x\<bar>"
  proof (cases "0 < x")
    case True
    with le have "real_of_int (2 ^ 52) \<le> x / q"
      by simp
    then have "2 ^ 52 \<le> round_half_even (x / q)"
      by (rule round_half_even_ge)
    then have "real_of_int (2 ^ 52) \<le> real_of_int (round_half_even (x / q))"
      by linarith
    then have "real_of_int (2 ^ 52) * q \<le> real_of_int (round_half_even (x / q)) * q"
      using q(2) by (intro mult_right_mono) simp_all
    then show ?thesis
      using x0 by (simp add: binary64_def q(1))
  next
    case False
    with x0 le have "x / q \<le> real_of_int (- (2 ^ 52))"
      using q(2) by (simp add: field_simps)
    then have "round_half_even (x / q) \<le> - (2 ^ 52)"
      by (rule round_half_even_le)
    then have "real_of_int (round_half_even (x / q)) \<le> real_of_int (- (2 ^ 52))"
      by linarith
    then have "real_of_int (round_half_even (x / q)) * q \<le> real_of_int (- (2 ^ 52)) * q"
      using q(2) by (intro mult_right_mono) simp_all
    then show ?thesis
      using x0 by (simp add: binary64_def q(1))
  qed
  with big show ?thesis
    by linarith
qed

lemma parse_number_overflow: "2 ^ 1024 \<le> \<bar>x\<bar> \<Longrightarrow> parse_number x = JInf (0 < x)"
  using binary64_overflow [of x] by (simp add: parse_number_def)

lemma binary64_five: "binary64 5 = 5"
  using binary64_eqI [of 5 50 "5 * 2 ^ 50"] by simp

lemma binary64_half: "binary64 (1 / 2) = 1 / 2"
  using binary64_eqI [of "1 / 2" 53 "2 ^ 52"] by simp

subsection \<open>The handler\<close>

lemma err_bind_Inr [simp]: "err_bind (Inr x) f = f x"
  by (simp add: err_bind_def)

lemma err_bind_Inl [simp]: "err_bind (Inl e) f = Inl e"
  by (simp add: err_bind_def)

lemma renders_iff:
  "(\<exists>s. ToString fmt v = Inr s) \<longleftrightarrow> renders v"
  "(\<exists>ss. element_strings fmt vs = Inr ss) \<longleftrightarrow> list_all renders vs"
  by (induction fmt v and fmt vs rule: ToString_element_strings.induct)
    (auto simp: err_bind_def split: sum.splits)

lemma ToString_error:
  "ToString fmt v = Inl e \<Longrightarrow> e = TypeError"
  "element_strings fmt vs = Inl e \<Longrightarrow> e = TypeError"
  by (induction fmt v and fmt vs arbitrary: e and e rule: ToString_element_strings.induct)
    (auto simp: err_bind_def split: sum.splits if_splits)

lemma ToString_not_renders:
  assumes "\<not> renders v"
  shows "ToString fmt v = Inl TypeError"
proof (cases "ToString fmt v")
  case (Inl e)
  then show ?thesis using ToString_error(1) [of fmt v e] by simp
next
  case (Inr s)
  with assms renders_iff(1) [of fmt v] show ?thesis by blast
qed

lemma Array_from_at_draw:
  "Array_from_at i k (\<lambda>i w. Inr (g i (shd (draws w)), w\<lparr>draws := stl (draws w)\<rparr>)) w =
     Inr (map (\<lambda>j. g (i + j) (draws w !! j)) [0..<k], w\<lparr>draws := sdrop k (draws w)\<rparr>)"
proof (induction k arbitrary: i w)
  case 0
  then show ?case by simp
next
  case (Suc k)
  show ?case
    by (simp add: Suc map_upt_Suc del: upt_Suc)
qed

lemma Array_from_ndvi_value:
  "Array_from n ndvi_value w =
     Inr (map (\<lambda>j. ndvi_at j (draws w !! j)) [0..<n], w\<lparr>draws := sdrop n (draws w)\<rparr>)"
  unfolding Array_from_def ndvi_value_def Math_random_def
  using Array_from_at_draw [of 0 n "\<lambda>i r. ndvi_at i r" w]
  by (simp add: Let_def ndvi_at_def spread_def)

lemma Array_from_rainfall_value:
  "Array_from n rainfall_value w =
     Inr (map (\<lambda>j. times64 (draws w !! j) 20) [0..<n], w\<lparr>draws := sdrop n (draws w)\<rparr>)"
  unfolding Array_from_def rainfall_value_def Math_random_def
  using Array_from_at_draw [of 0 n "\<lambda>i r. times64 r 20" w]
  by (simp add: Let_def)

lemma printable_Suc:
  "printable rt ts c (Suc k) \<longleftrightarrow>
     \<bar>setDate_days_ago rt (shd ts) (c 0)\<bar> \<le> maxTime \<and> printable rt (stl ts) (\<lambda>j. c (Suc j)) k"
  unfolding printable_def
  by (auto simp: less_Suc_eq_0_disj)

lemma Array_from_at_dates:
  "Array_from_at i k (\<lambda>i. iso_date_days_ago rt (c i)) w =
     (if printable rt (clock w) (\<lambda>j. c (i + j)) k
      then Inr (map (\<lambda>j. setDate_days_ago rt (clock w !! j) (c (i + j)) div msPerDay) [0..<k],
                w\<lparr>clock := sdrop k (clock w)\<rparr>)
      else Inl RangeError)"
proof (induction k arbitrary: i w)
  case 0
  then show ?case by (simp add: printable_def)
next
  case (Suc k)
  have head: "iso_date_days_ago rt (c i) w =
      (if \<bar>setDate_days_ago rt (shd (clock w)) (c i)\<bar> \<le> maxTime
       then Inr (setDate_days_ago rt (shd (clock w)) (c i) div msPerDay,
                 w\<lparr>clock := stl (clock w)\<rparr>)
       else Inl RangeError)"
    by (simp add: iso_date_days_ago_def new_Date_def Let_def)
  show ?case
    by (simp add: Suc head printable_Suc map_upt_Suc del: upt_Suc)
qed

lemma Array_from_dates:
  "Array_from k (\<lambda>i. iso_date_days_ago rt (c i)) w =
     (if printable rt (clock w) c k
      then Inr (map (\<lambda>j. setDate_days_ago rt (clock w !! j) (c j) div msPerDay) [0..<k],
                w\<lparr>clock := sdrop k (clock w)\<rparr>)
      else Inl RangeError)"
  unfolding Array_from_def using Array_from_at_dates [of 0 k rt c w] by simp

lemma get_prop_null [simp]: "get_prop (Some JNull) k = Inl TypeError"
  by simp

lemma get_prop_not_null: "body \<noteq> JNull \<Longrightarrow> get_prop (Some body) k = Inr (prop_of body k)"
  by (cases body) (simp_all add: prop_of_def)

lemma ndvi_stats_of_eq:
  "ndvi_stats_of w = (stats_at (draws w), w\<lparr>draws := sdrop 4 (draws w)\<rparr>)"
  by (simp add: ndvi_stats_of_def stats_at_def spread_def Math_random_def Let_def eval_nat_numeral)

lemma recommendations_of_eq:
  "recommendations_of rt (zone_count body) =
     (if renders (zone_count body) then Inr (recommendations_at rt body) else Inl TypeError)"
proof (cases "renders (zone_count body)")
  case True
  then obtain s where "ToString (Number_toString rt) (zone_count body) = Inr s"
    using renders_iff(1) [of "Number_toString rt" "zone_count body"] by blast
  with True show ?thesis
    by (simp add: recommendations_at_def recommendations_of_def)
next
  case False
  then show ?thesis
    by (simp add: recommendations_of_def ToString_not_renders)
qed

lemma mock_response_eq:
  "mock_response rt w body =
     (if body = JNull \<or> \<not> renders (zone_count body) then Inl TypeError
      else if dates_printable rt w
      then Inr (mock_at rt w body, w\<lparr>draws := sdrop 26 (draws w), clock := sdrop 17 (clock w)\<rparr>)
      else Inl RangeError)"
proof (cases "body = JNull")
  case True
  then show ?thesis
    by (simp add: mock_response_def ndvi_stats_of_eq)
next
  case False
  have "binary64 0.5 = 1 / 2"
    using binary64_half by simp
  with False show ?thesis
    by (simp add: mock_response_def ndvi_stats_of_eq get_prop_not_null Math_random_def
        zone_count_def [symmetric] recommendations_of_eq
        ndvi_time_series_of_def rainfall_data_of_def Array_from_dates Array_from_ndvi_value
        Array_from_rainfall_value Let_def mock_at_def series_at_def rainfall_at_def scaled_def
        dates_printable_def sdrop_snth)
qed

lemma POST_eq:
  "POST rt ext w (Some body) =
     (if body \<noteq> JNull \<and> renders (zone_count body) \<and> dates_printable rt w
      then Ok200 (insights_step rt ext body (mock_at rt w body))
      else Error500 ''Analysis failed'')"
  by (simp add: POST_def mock_response_eq get_prop_not_null insights_step_def Let_def)

lemma POST_None: "POST rt ext w None = Error500 ''Analysis failed''"
  by (simp add: POST_def)

lemma POST_Ok200D:
  assumes "POST rt ext w request_json = Ok200 res"
  obtains body where "request_json = Some body" and "body \<noteq> JNull"
    and "renders (zone_count body)" and "dates_printable rt w"
    and "res = insights_step rt ext body (mock_at rt w body)"
proof (cases request_json)
  case None
  with assms show ?thesis by (simp add: POST_None)
next
  case (Some body)
  with assms that show ?thesis
    by (auto simp: POST_eq split: if_splits)
qed

lemma unit_draws_snth: "unit_draws w \<Longrightarrow> 0 \<le> draws w !! n \<and> draws w !! n < 1"
  by (simp add: unit_draws_def)

lemma generateAIInsights_failed: "call_failed ext \<Longrightarrow> generateAIInsights rt ext m k = JNull"
  by (auto simp: call_failed_def generateAIInsights_def insights_attempt_def err_bind_def
      split: fetch_outcome.splits option.splits sum.splits)

lemma tz_bounded_utc: "tz_bounded utc_runtime"
  by (simp add: tz_bounded_def utc_runtime_def msPerDay_def)

lemma unit_draws_constant: "0 \<le> r \<Longrightarrow> r < 1 \<Longrightarrow> unit_draws (constant_world r t)"
  by (simp add: unit_draws_def constant_world_def)

lemma clock_in_range_noon: "clock_in_range (constant_world r noon)"
  by (simp add: clock_in_range_def constant_world_def noon_def msPerDay_def maxTime_def)

lemma clock_steady_constant: "clock_steady (constant_world r t)"
  by (simp add: clock_steady_def constant_world_def msPerDay_def)

lemma setDate_days_ago_bounds:
  assumes "tz_bounded rt"
  shows "tv - int n * msPerDay - 2 * msPerDay \<le> setDate_days_ago rt tv n"
    and "setDate_days_ago rt tv n \<le> tv - int n * msPerDay + 2 * msPerDay"
proof -
  define a where "a = LocalTZA rt tv True"
  define b where "b = LocalTZA rt (tv + a - int n * msPerDay) False"
  have "\<bar>a\<bar> \<le> msPerDay" and "\<bar>b\<bar> \<le> msPerDay"
    using assms by (simp_all add: tz_bounded_def a_def b_def)
  moreover have "setDate_days_ago rt tv n = tv + a - int n * msPerDay - b"
    by (simp add: setDate_days_ago_def Let_def a_def b_def)
  ultimately show "tv - int n * msPerDay - 2 * msPerDay \<le> setDate_days_ago rt tv n"
    and "setDate_days_ago rt tv n \<le> tv - int n * msPerDay + 2 * msPerDay"
    by linarith+
qed

lemma printable_in_range:
  assumes "tz_bounded rt" and "\<forall>j. \<bar>ts !! j\<bar> + 100 * msPerDay \<le> maxTime" and "\<forall>j<k. c j \<le> 90"
  shows "printable rt ts c k"
  unfolding printable_def
proof (intro allI impI)
  fix j assume "j < k"
  then have "int (c j) \<le> 90" using assms(3) by auto
  then have "int (c j) * msPerDay \<le> 90 * msPerDay"
    by (simp add: msPerDay_def)
  moreover have "\<bar>ts !! j\<bar> + 100 * msPerDay \<le> maxTime" using assms(2) by simp
  moreover note setDate_days_ago_bounds [OF assms(1), of "ts !! j" "c j"]
  moreover have "0 \<le> int (c j) * msPerDay" by (simp add: msPerDay_def)
  moreover have "0 < msPerDay" by (simp add: msPerDay_def)
  ultimately show "\<bar>setDate_days_ago rt (ts !! j) (c j)\<bar> \<le> maxTime"
    by linarith
qed

lemma dates_printable_in_range:
  assumes "tz_bounded rt" and "clock_in_range w"
  shows "dates_printable rt w"
proof -
  have r: "\<bar>clock w !! j\<bar> + 100 * msPerDay \<le> maxTime" for j
    using assms(2) by (simp add: clock_in_range_def)
  have "printable rt (clock w) (\<lambda>i. (6 - i) * 15) 7"
    by (rule printable_in_range [OF assms(1)]) (use r in auto)
  moreover have "printable rt (sdrop 7 (clock w)) (\<lambda>i. 9 - i) 10"
    by (rule printable_in_range [OF assms(1)]) (use r in \<open>auto simp: sdrop_snth\<close>)
  ultimately show ?thesis by (simp add: dates_printable_def)
qed

lemma POST_succeeds:
  assumes "body \<noteq> JNull" and "renders (zone_count body)" and "tz_bounded rt" and "clock_in_range w"
  shows "POST rt ext w (Some body) = Ok200 (insights_step rt ext body (mock_at rt w body))"
  using assms by (simp add: POST_eq dates_printable_in_range)

lemma insights_step_fields [simp]:
  "ndvi_stats (insights_step rt ext body m) = ndvi_stats m"
  "zones_identified (insights_step rt ext body m) = zones_identified m"
  "processing_time (insights_step rt ext body m) = processing_time m"
  "recommendations (insights_step rt ext body m) = recommendations m"
  "ndvi_time_series (insights_step rt ext body m) = ndvi_time_series m"
  "rainfall_data (insights_step rt ext body m) = rainfall_data m"
  "crop_type (insights_step rt ext body m) = crop_type m"
  "crop_growth_stage (insights_step rt ext body m) = crop_growth_stage m"
  by (simp_all add: insights_step_def Let_def)

lemma mock_at_fields [simp]:
  "ndvi_stats (mock_at rt w body) = stats_at (draws w)"
  "zones_identified (mock_at rt w body) = zone_count body"
  "processing_time (mock_at rt w body) = plus64 (binary64 1.5) (draws w !! 4)"
  "recommendations (mock_at rt w body) = recommendations_at rt body"
  "ndvi_time_series (mock_at rt w body) = series_at rt (draws w) (clock w)"
  "rainfall_data (mock_at rt w body) = rainfall_at rt (draws w) (clock w)"
  "crop_type (mock_at rt w body) = prop_of body ''crop_type''"
  "crop_growth_stage (mock_at rt w body) = prop_of body ''crop_growth_stage''"
  "ai_insights (mock_at rt w body) = None"
  by (simp_all add: mock_at_def)

lemma POST_utc_noon:
  "body \<noteq> JNull \<Longrightarrow> renders (zone_count body) \<Longrightarrow>
   POST utc_runtime ext (constant_world r noon) (Some body) =
     Ok200 (insights_step utc_runtime ext body (mock_at utc_runtime (constant_world r noon) body))"
  by (simp add: POST_succeeds tz_bounded_utc clock_in_range_noon)

lemma draws_constant [simp]: "draws (constant_world r t) = sconst r"
  by (simp add: constant_world_def)

lemma clock_constant [simp]: "clock (constant_world r t) = sconst t"
  by (simp add: constant_world_def)

subsection \<open>The rounding of the handler\<close>

lemma spread_near:
  assumes r: "0 \<le> r" "r < 1" and a: "0 \<le> a" "a \<le> 1 / 4"
    and b: "\<bar>b' - b\<bar> \<le> 9 / 2 ^ 53" and bound: "\<bar>b\<bar> + a / 2 \<le> 97 / 100"
  shows "\<bar>spread b' r a - (b + (r - 1 / 2) * a)\<bar> \<le> 12 / 2 ^ 53"
proof -
  define u :: real where "u = 1 / 2 ^ 53"
  have u: "0 < u" "u \<le> 1 / 1000"
    by (simp_all add: u_def)
  define d where "d = binary64 (r - 1 / 2)"
  define a' where "a' = binary64 a"
  define t where "t = binary64 (d * a')"
  have s: "spread b' r a = binary64 (b' + t)"
    by (simp add: spread_def plus64_def times64_def minus64_def binary64_half d_def a'_def t_def)
  have d: "\<bar>d - (r - 1 / 2)\<bar> \<le> u"
    unfolding d_def u_def using r by (intro round_unit) (simp add: abs_le_iff)
  have a': "\<bar>a' - a\<bar> \<le> u"
    unfolding a'_def u_def using a by (intro round_unit) simp
  have a'2: "\<bar>a'\<bar> \<le> 1 / 2"
    using a' a u by linarith
  have r2: "\<bar>r - 1 / 2\<bar> \<le> 1 / 2"
    using r by linarith
  have "\<bar>d * a' - (r - 1 / 2) * a\<bar> \<le> u * (1 / 2) + 1 / 2 * u"
    using d a' r2 a'2 by (rule mult_error)
  then have p: "\<bar>d * a' - (r - 1 / 2) * a\<bar> \<le> u"
    by simp
  have "\<bar>(r - 1 / 2) * a\<bar> = \<bar>r - 1 / 2\<bar> * a"
    using a by (simp add: abs_mult)
  also have "\<dots> \<le> 1 / 2 * a"
    using r2 a by (intro mult_right_mono) simp_all
  finally have e: "\<bar>(r - 1 / 2) * a\<bar> \<le> a / 2"
    by simp
  have "\<bar>d * a'\<bar> \<le> 1"
    using p e a u by linarith
  then have "\<bar>t - d * a'\<bar> \<le> u"
    unfolding t_def u_def by (rule round_unit)
  with p have t: "\<bar>t - (r - 1 / 2) * a\<bar> \<le> 2 * u"
    by linarith
  have b': "\<bar>b' - b\<bar> \<le> 9 * u"
    using b by (simp add: u_def)
  have "\<bar>b' + t\<bar> \<le> 1"
    using b' t e bound u by linarith
  then have "\<bar>binary64 (b' + t) - (b' + t)\<bar> \<le> u"
    unfolding u_def by (rule round_unit)
  with b' t have "\<bar>binary64 (b' + t) - (b + (r - 1 / 2) * a)\<bar> \<le> 12 * u"
    by linarith
  then show ?thesis
    by (simp add: s u_def)
qed

lemma spread_literal_near:
  assumes "0 \<le> r \<and> r < 1" and "0 \<le> a" and "a \<le> 1 / 4" and "\<bar>c\<bar> + a / 2 \<le> 97 / 100"
  shows "\<bar>spread (binary64 c) r a - (c + (r - 1 / 2) * a)\<bar> \<le> 12 / 2 ^ 53"
proof -
  have "\<bar>c\<bar> \<le> 1"
    using assms(2, 4) by linarith
  then have "\<bar>binary64 c - c\<bar> \<le> 9 / 2 ^ 53"
    using round_unit [of c] by simp
  with assms show ?thesis
    by (intro spread_near) simp_all
qed

lemma near_range:
  fixes x c r a e :: real
  assumes "\<bar>x - (c + (r - 1 / 2) * a)\<bar> \<le> e" and "0 \<le> r \<and> r < 1" and "0 \<le> a" and "e \<le> slack"
  shows "c - a / 2 - slack \<le> x \<and> x \<le> c + a / 2 + slack"
proof -
  have "(r - 1 / 2) * a \<le> 1 / 2 * a"
    using assms(2, 3) by (intro mult_right_mono) simp_all
  moreover have "- (1 / 2) * a \<le> (r - 1 / 2) * a"
    using assms(2, 3) by (intro mult_right_mono) simp_all
  ultimately show ?thesis
    using assms(1, 4) by linarith
qed

lemma spread_range:
  assumes "0 \<le> r \<and> r < 1" and "0 \<le> a" and "a \<le> 1 / 4" and "\<bar>c\<bar> + a / 2 \<le> 97 / 100"
  shows "c - a / 2 - slack \<le> spread (binary64 c) r a \<and>
         spread (binary64 c) r a \<le> c + a / 2 + slack"
proof -
  have "(12 :: real) / 2 ^ 53 \<le> slack"
    by (simp add: slack_def)
  then show ?thesis
    by (rule near_range [OF spread_literal_near [OF assms] assms(1, 2)])
qed

lemma stats_at_ranges:
  assumes "\<And>n. 0 \<le> s !! n \<and> s !! n < 1"
  shows "0.20 - slack \<le> min_value (stats_at s) \<and> min_value (stats_at s) \<le> 0.30 + slack \<and>
         0.55 - slack \<le> mean (stats_at s) \<and> mean (stats_at s) \<le> 0.75 + slack \<and>
         0.80 - slack \<le> max_value (stats_at s) \<and> max_value (stats_at s) \<le> 0.90 + slack \<and>
         0.095 - slack \<le> stddev (stats_at s) \<and> stddev (stats_at s) \<le> 0.145 + slack"
proof -
  have "0.65 - 0.2 / 2 - slack \<le> spread (binary64 0.65) (s !! 0) 0.2 \<and>
      spread (binary64 0.65) (s !! 0) 0.2 \<le> 0.65 + 0.2 / 2 + slack"
    using assms [of 0] by (intro spread_range) simp_all
  moreover have "0.12 - 0.05 / 2 - slack \<le> spread (binary64 0.12) (s !! 1) 0.05 \<and>
      spread (binary64 0.12) (s !! 1) 0.05 \<le> 0.12 + 0.05 / 2 + slack"
    using assms [of 1] by (intro spread_range) simp_all
  moreover have "0.25 - 0.1 / 2 - slack \<le> spread (binary64 0.25) (s !! 2) 0.1 \<and>
      spread (binary64 0.25) (s !! 2) 0.1 \<le> 0.25 + 0.1 / 2 + slack"
    using assms [of 2] by (intro spread_range) simp_all
  moreover have "0.85 - 0.1 / 2 - slack \<le> spread (binary64 0.85) (s !! 3) 0.1 \<and>
      spread (binary64 0.85) (s !! 3) 0.1 \<le> 0.85 + 0.1 / 2 + slack"
    using assms [of 3] by (intro spread_range) simp_all
  ultimately show ?thesis
    by (simp add: stats_at_def field_simps del: snth.simps)
qed

lemma stats_at_order:
  assumes "\<And>n. 0 \<le> s !! n \<and> s !! n < 1"
  shows "min_value (stats_at s) < mean (stats_at s) \<and> mean (stats_at s) < max_value (stats_at s) \<and>
         0 < stddev (stats_at s)"
proof -
  have "slack \<le> 1 / 100"
    by (simp add: slack_def)
  with stats_at_ranges [OF assms] show ?thesis
    by (simp add: field_simps)
qed

lemma ndvi_base_near:
  assumes "i \<le> 6"
  shows "\<bar>plus64 (binary64 0.3) (times64 (real i) (binary64 0.1)) - (0.3 + real i * 0.1)\<bar>
      \<le> 9 / 2 ^ 53"
proof -
  define u :: real where "u = 1 / 2 ^ 53"
  have u: "0 < u" "u \<le> 1 / 1000"
    by (simp_all add: u_def)
  define c where "c = binary64 0.1"
  define t where "t = binary64 (real i * c)"
  define b where "b = binary64 0.3"
  have i: "0 \<le> real i" "real i \<le> 6"
    using assms by simp_all
  have c: "\<bar>c - 0.1\<bar> \<le> u"
    unfolding c_def u_def by (intro round_unit) simp
  have "\<bar>real i * c - real i * 0.1\<bar> \<le> 0 * 1 + 6 * u"
  proof (rule mult_error)
    show "\<bar>real i - real i\<bar> \<le> 0" by simp
    show "\<bar>c - 0.1\<bar> \<le> u" by (rule c)
    show "\<bar>real i\<bar> \<le> 6" using i by simp
    show "\<bar>c\<bar> \<le> 1" using c u by linarith
  qed
  then have p: "\<bar>real i * c - real i * 0.1\<bar> \<le> 6 * u"
    by simp
  have "real i * 0.1 \<le> 6 * 0.1" "0 \<le> real i * 0.1"
    using i by simp_all
  then have e: "\<bar>real i * 0.1\<bar> \<le> 0.6"
    by linarith
  have "\<bar>real i * c\<bar> \<le> 1"
    using p e u by linarith
  then have "\<bar>t - real i * c\<bar> \<le> u"
    unfolding t_def u_def by (rule round_unit)
  with p have t: "\<bar>t - real i * 0.1\<bar> \<le> 7 * u"
    by linarith
  have b: "\<bar>b - 0.3\<bar> \<le> u"
    unfolding b_def u_def by (intro round_unit) simp
  have "\<bar>b + t\<bar> \<le> 1"
    using b t e u by linarith
  then have "\<bar>binary64 (b + t) - (b + t)\<bar> \<le> u"
    unfolding u_def by (rule round_unit)
  with b t have "\<bar>binary64 (b + t) - (0.3 + real i * 0.1)\<bar> \<le> 9 * u"
    by linarith
  then show ?thesis
    by (simp add: plus64_def times64_def b_def t_def c_def u_def)
qed

lemma ndvi_at_near:
  assumes "i \<le> 6" and "0 \<le> r" and "r < 1"
  shows "\<bar>ndvi_at i r - (3 / 10 + real i / 10 + (r - 1 / 2) / 10)\<bar> \<le> 12 / 2 ^ 53"
proof -
  have "real i \<le> 6" "0 \<le> real i"
    using assms(1) by simp_all
  then have "\<bar>0.3 + real i * 0.1\<bar> + 0.1 / 2 \<le> 97 / 100"
    by (simp add: abs_le_iff field_simps)
  with ndvi_base_near [OF assms(1)] assms(2, 3)
  have "\<bar>ndvi_at i r - (0.3 + real i * 0.1 + (r - 1 / 2) * 0.1)\<bar> \<le> 12 / 2 ^ 53"
    unfolding ndvi_at_def by (intro spread_near) simp_all
  then show ?thesis
    by simp
qed

lemma ndvi_at_step:
  assumes "i < 6" and "0 \<le> r" and "r < 1" and "0 \<le> r'" and "r' < 1"
  shows "ndvi_at i r - slack < ndvi_at (Suc i) r'"
proof -
  have "i \<le> 6" and "Suc i \<le> 6"
    using assms(1) by simp_all
  note n1 = ndvi_at_near [OF \<open>i \<le> 6\<close> assms(2, 3)]
  note n2 = ndvi_at_near [OF \<open>Suc i \<le> 6\<close> assms(4, 5)]
  define e :: real where "e = 12 / 2 ^ 53"
  have "2 * e < slack"
    by (simp add: e_def slack_def)
  with n1 [folded e_def] n2 [unfolded of_nat_Suc, folded e_def] assms(2-5) show ?thesis
    unfolding abs_le_iff by (simp add: field_simps)
qed

lemma ndvi_at_step_strict:
  assumes "i < 6" and "0 \<le> r" and "r \<le> 9 / 10" and "1 / 10 \<le> r'" and "r' < 1"
  shows "ndvi_at i r < ndvi_at (Suc i) r'"
proof -
  have "i \<le> 6" and "Suc i \<le> 6"
    using assms(1) by simp_all
  have "r < 1" and "0 \<le> r'"
    using assms by simp_all
  note n1 = ndvi_at_near [OF \<open>i \<le> 6\<close> assms(2) \<open>r < 1\<close>]
  note n2 = ndvi_at_near [OF \<open>Suc i \<le> 6\<close> \<open>0 \<le> r'\<close> assms(5)]
  define e :: real where "e = 12 / 2 ^ 53"
  have "2 * e < 1 / 100"
    by (simp add: e_def)
  with n1 [folded e_def] n2 [unfolded of_nat_Suc, folded e_def] assms(2-5) show ?thesis
    unfolding abs_le_iff by (simp add: field_simps)
qed

lemma rainfall_value_range:
  assumes "0 \<le> r" and "r < 1"
  shows "0 \<le> times64 r 20 \<and> times64 r 20 \<le> 20"
proof (cases "r = 0")
  case True
  then show ?thesis by (simp add: times64_def)
next
  case False
  have "r * 20 \<le> real_of_int 20" and "0 < r * 20" and "r * 20 < 2 ^ 53"
    using assms False by simp_all
  then have "binary64 (r * 20) \<le> real_of_int 20"
    by (rule binary64_le_int)
  moreover have "0 \<le> binary64 (r * 20)"
    using assms by (intro binary64_nonneg) simp
  ultimately show ?thesis
    by (simp add: times64_def)
qed

lemma scaled_near:
  assumes r: "0 \<le> r" "r < 1" and c: "0 \<le> c" "c \<le> 87 / 2" and k: "0 \<le> k" "k \<le> 20"
  shows "\<bar>scaled c r k - (c + r * k)\<bar> \<le> 3 / 2 ^ 47"
proof -
  define u :: real where "u = 1 / 2 ^ 47"
  have u: "0 < u" "u \<le> 1 / 1000"
    by (simp_all add: u_def)
  define p where "p = r * k"
  define c' where "c' = binary64 c"
  define t where "t = binary64 p"
  have "r * k \<le> 1 * k"
    using r k by (intro mult_right_mono) simp_all
  moreover have "0 \<le> r * k"
    using r k by simp
  ultimately have e: "0 \<le> p" "p \<le> 20"
    using k by (simp_all add: p_def)
  then have "\<bar>p\<bar> \<le> 64"
    by simp
  then have t: "\<bar>t - p\<bar> \<le> u"
    unfolding t_def u_def by (rule round_64)
  have c': "\<bar>c' - c\<bar> \<le> u"
    unfolding c'_def u_def using c by (intro round_64) simp
  have "\<bar>c' + t\<bar> \<le> 64"
    using c' t c e u by linarith
  then have "\<bar>binary64 (c' + t) - (c' + t)\<bar> \<le> u"
    unfolding u_def by (rule round_64)
  with c' t have "\<bar>binary64 (c' + t) - (c + p)\<bar> \<le> 3 * u"
    by linarith
  then show ?thesis
    by (simp add: scaled_def plus64_def times64_def c'_def t_def u_def p_def)
qed

lemma scaled_range:
  assumes r: "0 \<le> r" "r < 1" and c: "0 \<le> c" "c \<le> 87 / 2" and k: "0 \<le> k" "k \<le> 20"
  shows "c - slack \<le> scaled c r k \<and> scaled c r k \<le> c + k + slack"
proof -
  define p where "p = r * k"
  have "r * k \<le> 1 * k"
    using r k by (intro mult_right_mono) simp_all
  moreover have "0 \<le> r * k"
    using r k by simp
  ultimately have "0 \<le> p" "p \<le> k"
    by (simp_all add: p_def)
  moreover have "(3 :: real) / 2 ^ 47 \<le> slack"
    by (simp add: slack_def)
  moreover note scaled_near [OF assms, folded p_def]
  ultimately show ?thesis
    by linarith
qed

lemma rainfall_at_ranges:
  assumes "\<And>n. 0 \<le> s !! n \<and> s !! n < 1"
  shows "43.2 - slack \<le> total_rainfall (rainfall_at rt s ts) \<and>
         total_rainfall (rainfall_at rt s ts) \<le> 63.2 + slack \<and>
         6.17 - slack \<le> avg_daily_rainfall (rainfall_at rt s ts) \<and>
         avg_daily_rainfall (rainfall_at rt s ts) \<le> 9.17 + slack \<and>
         15.3 - slack \<le> max_daily_rainfall (rainfall_at rt s ts) \<and>
         max_daily_rainfall (rainfall_at rt s ts) \<le> 25.3 + slack"
proof -
  note a = assms [of 23] and b = assms [of 24] and c = assms [of 25]
  have "43.2 - slack \<le> scaled 43.2 (s !! 23) 20 \<and> scaled 43.2 (s !! 23) 20 \<le> 43.2 + 20 + slack"
    using a by (intro scaled_range) simp_all
  moreover have "6.17 - slack \<le> scaled 6.17 (s !! 24) 3 \<and> scaled 6.17 (s !! 24) 3 \<le> 6.17 + 3 + slack"
    using b by (intro scaled_range) simp_all
  moreover have "15.3 - slack \<le> scaled 15.3 (s !! 25) 10 \<and>
      scaled 15.3 (s !! 25) 10 \<le> 15.3 + 10 + slack"
    using c by (intro scaled_range) simp_all
  ultimately show ?thesis
    by (simp add: rainfall_at_def del: snth.simps)
qed

lemma rainfall_values_range:
  assumes "\<And>n. 0 \<le> s !! n \<and> s !! n < 1"
  shows "\<forall>v\<in>set (rainfall_values (rainfall_at rt s ts)). 0 \<le> v \<and> v \<le> 20"
  using assms by (auto simp add: rainfall_at_def rainfall_value_range simp del: snth.simps)

subsection \<open>Values at particular draws\<close>

lemma binary64_literals:
  "binary64 0.1 = 7205759403792794 / 2 ^ 56"
  "binary64 0.3 = 5404319552844595 / 2 ^ 54"
  "binary64 0.5 = 1 / 2"
  "binary64 0.85 = 7656119366529843 / 2 ^ 53"
  using binary64_eqI [of "0.1" 56 "7205759403792794"]
  using binary64_eqI [of "0.3" 54 "5404319552844595"]
  using binary64_eqI [of "0.5" 53 "4503599627370496"]
  using binary64_eqI [of "0.85" 53 "7656119366529843"]
  by simp_all

lemma max_at_zero: "spread (binary64 0.85) 0 0.1 = 7205759403792793 / 2 ^ 53"
proof -
  have s1: "binary64 (0 - 1 / 2) =
      - 4503599627370496 / 2 ^ 53"
    using binary64_eqI [of "0 - 1 / 2"
        53 "(- 4503599627370496)"]
    by simp
  have s2: "binary64 ((- 4503599627370496 / 2 ^ 53) * (7205759403792794 / 2 ^ 56)) =
      - 7205759403792794 / 2 ^ 57"
    using binary64_eqI [of "(- 4503599627370496 / 2 ^ 53) * (7205759403792794 / 2 ^ 56)"
        57 "(- 7205759403792794)"]
    by simp
  have s3: "binary64 (7656119366529843 / 2 ^ 53 + (- 7205759403792794 / 2 ^ 57)) =
      7205759403792793 / 2 ^ 53"
    using binary64_eqI [of "7656119366529843 / 2 ^ 53 + (- 7205759403792794 / 2 ^ 57)"
        53 "7205759403792793"]
    by simp
  show ?thesis
    by (simp only: spread_def plus64_def times64_def minus64_def binary64_literals
        s1 s2 s3)
qed

lemma ndvi_at_one_near_one: "ndvi_at 1 (1 - 1 / 2 ^ 52) = 8106479329266893 / 2 ^ 54"
proof -
  have s1: "binary64 (real 1 * (7205759403792794 / 2 ^ 56)) =
      7205759403792794 / 2 ^ 56"
    using binary64_eqI [of "real 1 * (7205759403792794 / 2 ^ 56)"
        56 "7205759403792794"]
    by simp
  have s2: "binary64 (5404319552844595 / 2 ^ 54 + 7205759403792794 / 2 ^ 56) =
      7205759403792794 / 2 ^ 54"
    using binary64_tieI [of "5404319552844595 / 2 ^ 54 + 7205759403792794 / 2 ^ 56"
        54 "7205759403792793"]
    by simp
  have s3: "binary64 ((1 - 1 / 2 ^ 52) - 1 / 2) =
      9007199254740988 / 2 ^ 54"
    using binary64_eqI [of "(1 - 1 / 2 ^ 52) - 1 / 2"
        54 "9007199254740988"]
    by simp
  have s4: "binary64 (9007199254740988 / 2 ^ 54 * (7205759403792794 / 2 ^ 56)) =
      7205759403792791 / 2 ^ 57"
    using binary64_eqI [of "9007199254740988 / 2 ^ 54 * (7205759403792794 / 2 ^ 56)"
        57 "7205759403792791"]
    by simp
  have s5: "binary64 (7205759403792794 / 2 ^ 54 + 7205759403792791 / 2 ^ 57) =
      8106479329266893 / 2 ^ 54"
    using binary64_eqI [of "7205759403792794 / 2 ^ 54 + 7205759403792791 / 2 ^ 57"
        54 "8106479329266893"]
    by simp
  show ?thesis
    by (simp only: ndvi_at_def spread_def plus64_def times64_def minus64_def
        binary64_literals s1 s2 s3 s4 s5)
qed

lemma ndvi_at_two_zero: "ndvi_at 2 0 = 8106479329266893 / 2 ^ 54"
proof -
  have s1: "binary64 (real 2 * (7205759403792794 / 2 ^ 56)) =
      7205759403792794 / 2 ^ 55"
    using binary64_eqI [of "real 2 * (7205759403792794 / 2 ^ 56)"
        55 "7205759403792794"]
    by simp
  have s2: "binary64 (5404319552844595 / 2 ^ 54 + 7205759403792794 / 2 ^ 55) =
      4503599627370496 / 2 ^ 53"
    using binary64_eqI [of "5404319552844595 / 2 ^ 54 + 7205759403792794 / 2 ^ 55"
        53 "4503599627370496"]
    by simp
  have s3: "binary64 (0 - 1 / 2) =
      - 4503599627370496 / 2 ^ 53"
    using binary64_eqI [of "0 - 1 / 2"
        53 "(- 4503599627370496)"]
    by simp
  have s4: "binary64 ((- 4503599627370496 / 2 ^ 53) * (7205759403792794 / 2 ^ 56)) =
      - 7205759403792794 / 2 ^ 57"
    using binary64_eqI [of "(- 4503599627370496 / 2 ^ 53) * (7205759403792794 / 2 ^ 56)"
        57 "(- 7205759403792794)"]
    by simp
  have s5: "binary64 (4503599627370496 / 2 ^ 53 + (- 7205759403792794 / 2 ^ 57)) =
      8106479329266893 / 2 ^ 54"
    using binary64_eqI [of "4503599627370496 / 2 ^ 53 + (- 7205759403792794 / 2 ^ 57)"
        54 "8106479329266893"]
    by simp
  show ?thesis
    by (simp only: ndvi_at_def spread_def plus64_def times64_def minus64_def
        binary64_literals s1 s2 s3 s4 s5)
qed

subsection \<open>The answer\<close>

lemma sorted_wrt_map_upt:
  assumes "\<And>i. Suc i < n \<Longrightarrow> f i < f (Suc i)"
  shows "sorted_wrt (<) (map f [0..<n] :: 'a::order list)"
proof -
  have "transp ((<) :: 'a \<Rightarrow> 'a \<Rightarrow> bool)"
    by (rule transpI) (rule less_trans)
  then show ?thesis
    using assms by (simp add: sorted_wrt_iff_nth_Suc_transp)
qed

lemma ndvi_values_steps:
  assumes "\<And>n. 0 \<le> s !! n \<and> s !! n < 1" and "i < 6"
  shows "ndvi_values (series_at rt s ts) ! i - slack < ndvi_values (series_at rt s ts) ! Suc i"
proof -
  have "ndvi_at i (s !! (5 + i)) - slack < ndvi_at (Suc i) (s !! (5 + Suc i))"
    using assms(2) assms(1) [of "5 + i"] assms(1) [of "5 + Suc i"] by (intro ndvi_at_step) simp_all
  then show ?thesis
    using assms(2) by (simp add: series_at_def del: snth.simps upt_Suc)
qed

lemma ndvi_values_half_increasing:
  "sorted_wrt (<) (ndvi_values (series_at rt (sconst (1 / 2)) ts))"
proof -
  have "ndvi_at i (1 / 2) < ndvi_at (Suc i) (1 / 2)" if "Suc i < 7" for i
    using that by (intro ndvi_at_step_strict) simp_all
  then show ?thesis
    unfolding series_at_def by (simp add: sorted_wrt_map_upt del: upt_Suc)
qed

lemma div_less_if_day_apart:
  fixes a b :: int
  assumes "a + msPerDay \<le> b"
  shows "a div msPerDay < b div msPerDay"
proof -
  have "(a + msPerDay) div msPerDay \<le> b div msPerDay"
    using assms by (rule zdiv_mono1) (simp add: msPerDay_def)
  moreover have "(a + msPerDay) div msPerDay = a div msPerDay + 1"
    by (simp add: msPerDay_def)
  ultimately show ?thesis by simp
qed

lemma dates_increasing:
  assumes "tz_bounded rt" and "\<And>i. ts !! i - msPerDay \<le> ts !! Suc i"
  shows "sorted_wrt (<) (dates (series_at rt s ts))"
proof -
  have step: "setDate_days_ago rt (ts !! i) ((6 - i) * 15) div msPerDay
      < setDate_days_ago rt (ts !! Suc i) ((6 - Suc i) * 15) div msPerDay" if "Suc i < 7" for i
  proof (rule div_less_if_day_apart)
    have n: "int ((6 - i) * 15) = int ((6 - Suc i) * 15) + 15"
      using that by (simp add: of_nat_diff)
    note lo = setDate_days_ago_bounds(1) [OF assms(1), of "ts !! Suc i" "(6 - Suc i) * 15"]
    note hi = setDate_days_ago_bounds(2) [OF assms(1), of "ts !! i" "(6 - i) * 15"]
    have "0 < msPerDay" by (simp add: msPerDay_def)
    with lo hi assms(2) [of i] n
    show "setDate_days_ago rt (ts !! i) ((6 - i) * 15) + msPerDay
        \<le> setDate_days_ago rt (ts !! Suc i) ((6 - Suc i) * 15)"
      by (simp add: algebra_simps del: snth.simps of_nat_mult of_nat_diff)
  qed
  show ?thesis
    unfolding series_at_def using step by (simp add: sorted_wrt_map_upt del: snth.simps)
qed

lemma POST_Ok200_series:
  assumes "POST rt ext w request_json = Ok200 res"
  shows "ndvi_time_series res = series_at rt (draws w) (clock w)"
    and "rainfall_data res = rainfall_at rt (draws w) (clock w)"
proof -
  from assms obtain body where "res = insights_step rt ext body (mock_at rt w body)"
    by (rule POST_Ok200D)
  then show "ndvi_time_series res = series_at rt (draws w) (clock w)"
    and "rainfall_data res = rainfall_at rt (draws w) (clock w)"
    by simp_all
qed

lemma renders_default [simp]: "renders (zone_count (JObj []))"
  by (simp add: zone_count_def prop_of_def js_or_def)

lemma POST_utc_noon_empty:
  "POST utc_runtime NetworkError (constant_world r noon) (Some (JObj [])) =
     Ok200 (insights_step utc_runtime NetworkError (JObj [])
       (mock_at utc_runtime (constant_world r noon) (JObj [])))"
  by (rule POST_utc_noon) simp_all

lemma mock_response_InrD:
  assumes "mock_response rt w body = Inr (m, w')"
  shows "body \<noteq> JNull" and "renders (zone_count body)" and "dates_printable rt w"
    and "m = mock_at rt w body"
  using assms by (simp_all add: mock_response_eq split: if_splits)

lemma stake_eq_snth:
  assumes "stake k s = stake k t" and "n < k"
  shows "s !! n = t !! n"
proof -
  have "s !! n = stake k s ! n" using assms(2) by simp
  also have "\<dots> = stake k t ! n" using assms(1) by simp
  also have "\<dots> = t !! n" using assms(2) by simp
  finally show ?thesis .
qed

lemma stake_sconst: "stake n (sconst x) = replicate n x"
  by (induction n) (simp_all del: stake_siterate)

lemma same_prefix_same_answer:
  assumes d: "\<And>n. n < 26 \<Longrightarrow> draws w1 !! n = draws w2 !! n"
    and c: "\<And>n. n < 17 \<Longrightarrow> clock w1 !! n = clock w2 !! n"
  shows "mock_at rt w1 body = mock_at rt w2 body"
    and "dates_printable rt w1 = dates_printable rt w2"
proof -
  have "stats_at (draws w1) = stats_at (draws w2)"
    unfolding stats_at_def using d [of 0] d [of 1] d [of 2] d [of 3] by (simp del: snth.simps)
  moreover have "series_at rt (draws w1) (clock w1) = series_at rt (draws w2) (clock w2)"
    unfolding series_at_def using d [of 12] by (simp add: d c del: snth.simps)
  moreover have "rainfall_at rt (draws w1) (clock w1) = rainfall_at rt (draws w2) (clock w2)"
    unfolding rainfall_at_def using d [of 23] d [of 24] d [of 25]
    by (simp add: d c del: snth.simps)
  ultimately show "mock_at rt w1 body = mock_at rt w2 body"
    using d [of 4] by (simp add: mock_at_def del: snth.simps)
  show "dates_printable rt w1 = dates_printable rt w2"
    by (simp add: dates_printable_def printable_def sdrop_snth c del: snth.simps)
qed

lemma insights_step_failed:
  "call_failed ext \<Longrightarrow> insights_step rt ext body m = m"
  by (simp add: insights_step_def generateAIInsights_failed Let_def)

lemma get_prop_InrD:
  assumes "get_prop (Some body) k = Inr v"
  shows "body \<noteq> JNull" and "v = prop_of body k"
  using assms by (auto simp: prop_of_def)

lemma Number_toString_utc: "Number_toString utc_runtime x = decimal \<lfloor>x\<rfloor>"
  by (simp add: utc_runtime_def)

lemma length_recommendations_at:
  "renders (zone_count body) \<Longrightarrow> length (recommendations_at rt body) = 5"
  using renders_iff(1) [of "Number_toString rt" "zone_count body"]
  by (auto simp: recommendations_at_def recommendations_of_def)

lemma mean_differs: "mean (stats_at (sconst 0)) < mean (stats_at (sconst (1 / 2)))"
proof -
  define e :: real where "e = 12 / 2 ^ 53"
  have e: "e < 1 / 100"
    by (simp add: e_def)
  have "\<bar>spread (binary64 0.65) 0 0.2 - (0.65 + (0 - 1 / 2) * 0.2)\<bar> \<le> e"
    unfolding e_def by (intro spread_literal_near) simp_all
  moreover have "\<bar>spread (binary64 0.65) (1 / 2) 0.2 - (0.65 + (1 / 2 - 1 / 2) * 0.2)\<bar> \<le> e"
    unfolding e_def by (intro spread_literal_near) simp_all
  ultimately have "spread (binary64 0.65) 0 0.2 < spread (binary64 0.65) (1 / 2) 0.2"
    using e unfolding abs_le_iff by (simp add: field_simps)
  then show ?thesis
    by (simp add: stats_at_def)
qed

lemma rainfall_at_zero:
  "rainfall_values (rainfall_at rt (sconst 0) ts) = replicate 10 0"
  "\<bar>total_rainfall (rainfall_at rt (sconst 0) ts) - 43.2\<bar> \<le> 1 / 100"
  "\<bar>avg_daily_rainfall (rainfall_at rt (sconst 0) ts) - 6.17\<bar> \<le> 1 / 100"
  "\<bar>max_daily_rainfall (rainfall_at rt (sconst 0) ts) - 15.3\<bar> \<le> 1 / 100"
proof -
  show "rainfall_values (rainfall_at rt (sconst 0) ts) = replicate 10 0"
    by (simp add: rainfall_at_def times64_def map_replicate_const)
  have e: "(3 :: real) / 2 ^ 47 \<le> 1 / 100"
    by simp
  have "\<bar>scaled c 0 k - c\<bar> \<le> 1 / 100" if "0 \<le> c" "c \<le> 87 / 2" "0 \<le> k" "k \<le> 20" for c k
    using scaled_near [of 0 c k] that e by simp
  from this [of "43.2" 20] this [of "6.17" 3] this [of "15.3" 10]
  show "\<bar>total_rainfall (rainfall_at rt (sconst 0) ts) - 43.2\<bar> \<le> 1 / 100"
    and "\<bar>avg_daily_rainfall (rainfall_at rt (sconst 0) ts) - 6.17\<bar> \<le> 1 / 100"
    and "\<bar>max_daily_rainfall (rainfall_at rt (sconst 0) ts) - 15.3\<bar> \<le> 1 / 100"
    by (simp_all add: rainfall_at_def)
qed

lemma written_finite: "finite_json v \<Longrightarrow> written v = v"
  by (induction v rule: written.induct) (auto simp: list_all_iff intro!: map_idI)

lemma finite_json_prop:
  assumes "finite_json body" and "prop_of body k = Some v"
  shows "finite_json v"
proof (cases body)
  case (JObj kvs)
  with assms(2) have "(k, v) \<in> set kvs"
    by (auto simp: prop_of_def dest: map_of_SomeD)
  with assms(1) JObj show ?thesis
    by (auto simp: list_all_iff)
next
  case (JArr xs)
  with assms show ?thesis
    by (cases xs) (auto simp: prop_of_def split: if_splits)
next
  case (JStr s)
  with assms show ?thesis
    by (cases s) (auto simp: prop_of_def split: if_splits)
qed (use assms in \<open>auto simp: prop_of_def\<close>)

lemma written_prop:
  "finite_json body \<Longrightarrow> map_option written (prop_of body k) = prop_of body k"
  by (cases "prop_of body k") (auto dest: finite_json_prop simp: written_finite)

lemma clock_in_range_set_back: "clock_in_range clock_set_back"
  by (simp add: clock_in_range_def clock_set_back_def noon_def msPerDay_def maxTime_def)

lemma clock_in_range_near_one: "clock_in_range near_one_world"
  by (simp add: clock_in_range_def near_one_world_def noon_def msPerDay_def maxTime_def)

lemma POST_utc_empty:
  "clock_in_range w \<Longrightarrow>
   POST utc_runtime NetworkError w (Some (JObj [])) =
     Ok200 (insights_step utc_runtime NetworkError (JObj []) (mock_at utc_runtime w (JObj [])))"
  by (rule POST_succeeds) (simp_all add: tz_bounded_utc)

lemma length_order_zones [simp]: "length (order_zones clusters) = length clusters"
  by (simp add: order_zones_def)

lemma zone_ids_order_zones:
  "map zone_id (order_zones clusters) = [1..<Suc (length clusters)]"
proof -
  have "map zone_id (order_zones clusters) =
      map (Suc \<circ> fst) (enumerate 0 (sort_key fst clusters))"
    by (simp add: order_zones_def split_def o_def)
  also have "\<dots> = map Suc (map fst (enumerate 0 (sort_key fst clusters)))"
    by (simp only: map_map)
  also have "\<dots> = [1..<Suc (length clusters)]"
    by (simp add: map_Suc_upt)
  finally show ?thesis .
qed

lemma centroids_order_zones:
  "map centroid_value (order_zones clusters) = map fst (sort_key fst clusters)"
proof -
  have "map centroid_value (order_zones clusters) =
      map (fst \<circ> snd) (enumerate 0 (sort_key fst clusters))"
    by (simp add: order_zones_def split_def o_def)
  also have "\<dots> = map fst (map snd (enumerate 0 (sort_key fst clusters)))"
    by (simp only: map_map)
  also have "\<dots> = map fst (sort_key fst clusters)"
    by simp
  finally show ?thesis .
qed

lemma field_zones_count:
  "field_zones (real n) = map (\<lambda>i. (i + 1, zone_label (real n) i)) [0..<n]"
  by (simp add: field_zones_def ToLength_def)

lemma field_zones_nth:
  "i < n \<Longrightarrow> field_zones (real n) ! i = (i + 1, zone_label (real n) i)"
  by (simp add: field_zones_count)

lemma zone_label_first: "zone_label n 0 = ''Low vigor''"
  by (simp add: zone_label_def)

lemma zone_label_last: "2 \<le> n \<Longrightarrow> zone_label (real n) (n - 1) = ''High vigor''"
  by (simp add: zone_label_def)

section \<open>Claims\<close>

subsection \<open>C1\<close>

text \<open>
  C1 (fails as stated; what holds instead). Two invocations with the same request body
  return the same answer when they also see the same 26 draws of \<^verbatim>\<open>Math.random()\<close>,
  the same 17 clock readings and the same outcome of the external call. Whatever the
  draws, the clock and that outcome, two answers to the same body agree on
  \<open>zones_identified\<close>, \<open>recommendations\<close>, \<open>crop_type\<close>, \<open>crop_growth_stage\<close> and
  \<open>mean_ndvi\<close>. The statistics, the NDVI values, the trend and the rainfall numbers are
  drawn afresh on every invocation.
\<close>

theorem answer_depends_on_draws_and_clock:
  "(stake 26 (draws w1) = stake 26 (draws w2) \<and> stake 17 (clock w1) = stake 17 (clock w2) \<longrightarrow>
      POST rt ext w1 request_json = POST rt ext w2 request_json) \<and>
   (POST rt ext3 w3 request_json = Ok200 res3 \<and> POST rt ext4 w4 request_json = Ok200 res4 \<longrightarrow>
      zones_identified res3 = zones_identified res4 \<and>
      recommendations res3 = recommendations res4 \<and>
      crop_type res3 = crop_type res4 \<and>
      crop_growth_stage res3 = crop_growth_stage res4 \<and>
      mean_ndvi (ndvi_time_series res3) = mean_ndvi (ndvi_time_series res4))"
proof (intro conjI impI)
  assume a: "stake 26 (draws w1) = stake 26 (draws w2) \<and> stake 17 (clock w1) = stake 17 (clock w2)"
  then have d: "draws w1 !! n = draws w2 !! n" if "n < 26" for n
    using that by (intro stake_eq_snth [of 26]) simp_all
  from a have c: "clock w1 !! n = clock w2 !! n" if "n < 17" for n
    using that by (intro stake_eq_snth [of 17]) simp_all
  show "POST rt ext w1 request_json = POST rt ext w2 request_json"
  proof (cases request_json)
    case None
    then show ?thesis by (simp add: POST_None)
  next
    case (Some body)
    then show ?thesis
      using same_prefix_same_answer(1) [of w1 w2 rt body, OF d c]
        same_prefix_same_answer(2) [of w1 w2 rt, OF d c]
      by (simp add: POST_eq)
  qed
next
  assume b: "POST rt ext3 w3 request_json = Ok200 res3 \<and> POST rt ext4 w4 request_json = Ok200 res4"
  from b obtain body where r: "request_json = Some body"
    and r3: "res3 = insights_step rt ext3 body (mock_at rt w3 body)"
    by (auto elim: POST_Ok200D)
  from b r obtain body' where "Some body = Some body'"
    and "res4 = insights_step rt ext4 body' (mock_at rt w4 body')"
    by (auto elim: POST_Ok200D)
  then have r4: "res4 = insights_step rt ext4 body (mock_at rt w4 body)"
    by simp
  show "zones_identified res3 = zones_identified res4"
    and "recommendations res3 = recommendations res4"
    and "crop_type res3 = crop_type res4"
    and "crop_growth_stage res3 = crop_growth_stage res4"
    and "mean_ndvi (ndvi_time_series res3) = mean_ndvi (ndvi_time_series res4)"
    by (simp_all add: r3 r4 series_at_def)
qed

theorem answer_depends_on_draws_and_clock_witness:
  "stake 26 (draws (constant_world 0 noon)) =
     stake 26 (draws \<lparr>draws = replicate 26 0 @- sconst (1 / 2), clock = sconst noon\<rparr>) \<and>
   stake 17 (clock (constant_world 0 noon)) =
     stake 17 (clock \<lparr>draws = replicate 26 0 @- sconst (1 / 2), clock = sconst noon\<rparr>) \<and>
   POST utc_runtime NetworkError (constant_world 0 noon) (Some (JObj [])) =
     POST utc_runtime NetworkError
       \<lparr>draws = replicate 26 0 @- sconst (1 / 2), clock = sconst noon\<rparr> (Some (JObj [])) \<and>
   (\<exists>res3 res4.
      POST utc_runtime NetworkError (constant_world 0 noon) (Some (JObj [])) = Ok200 res3 \<and>
      POST utc_runtime NetworkError (constant_world (1 / 2) noon) (Some (JObj [])) = Ok200 res4 \<and>
      zones_identified res3 = zones_identified res4 \<and>
      recommendations res3 = recommendations res4)"
proof -
  let ?w2 = "\<lparr>draws = replicate 26 0 @- sconst (1 / 2), clock = sconst noon\<rparr>"
  have a: "stake 26 (draws (constant_world 0 noon)) = stake 26 (draws ?w2)"
    by (simp add: stake_sconst stake_shift del: stake_siterate)
  have b: "stake 17 (clock (constant_world 0 noon)) = stake 17 (clock ?w2)"
    by simp
  note t = answer_depends_on_draws_and_clock [of "constant_world 0 noon" ?w2 utc_runtime
      NetworkError "Some (JObj [])" NetworkError "constant_world 0 noon" _ NetworkError
      "constant_world (1 / 2) noon"]
  from t a b
  have "POST utc_runtime NetworkError (constant_world 0 noon) (Some (JObj [])) =
      POST utc_runtime NetworkError ?w2 (Some (JObj []))"
    by blast
  moreover from t POST_utc_noon_empty [of 0] POST_utc_noon_empty [of "1 / 2"]
  have "\<exists>res3 res4.
      POST utc_runtime NetworkError (constant_world 0 noon) (Some (JObj [])) = Ok200 res3 \<and>
      POST utc_runtime NetworkError (constant_world (1 / 2) noon) (Some (JObj [])) = Ok200 res4 \<and>
      zones_identified res3 = zones_identified res4 \<and>
      recommendations res3 = recommendations res4"
    by blast
  ultimately show ?thesis
    using a b by blast
qed

text \<open>
  The same body, answered once with every draw 0 and once with every draw 0.5: the mean
  NDVI of the statistics is 0.55 in one answer and 0.65 in the other, up to rounding.
\<close>

theorem same_body_different_answer_counterexample:
  "POST utc_runtime NetworkError (constant_world 0 noon) (Some (JObj [])) \<noteq>
   POST utc_runtime NetworkError (constant_world (1 / 2) noon) (Some (JObj []))"
proof
  assume "POST utc_runtime NetworkError (constant_world 0 noon) (Some (JObj [])) =
      POST utc_runtime NetworkError (constant_world (1 / 2) noon) (Some (JObj []))"
  then have "mean (ndvi_stats (insights_step utc_runtime NetworkError (JObj [])
        (mock_at utc_runtime (constant_world 0 noon) (JObj [])))) =
      mean (ndvi_stats (insights_step utc_runtime NetworkError (JObj [])
        (mock_at utc_runtime (constant_world (1 / 2) noon) (JObj []))))"
    by (simp add: POST_utc_noon_empty)
  then show False
    using mean_differs by simp
qed

subsection \<open>C2\<close>

text \<open>
  C2 (fails as stated; what holds instead). The reported trend does not look at the NDVI
  values: it is \<^verbatim>\<open>increasing\<close> when draw 12 (the thirteenth) of the request exceeds 0.5
  and \<^verbatim>\<open>decreasing\<close> otherwise. The seven values increase up to rounding: consecutive
  values differ by 0.1 plus the difference of two noises in \<open>[-0.05, 0.05)\<close>, computed
  in binary64 arithmetic, so that no value is lower than its predecessor by \<open>slack\<close>
  or more.
\<close>

theorem trend_is_a_coin_flip:
  assumes "POST rt ext w request_json = Ok200 res" and "unit_draws w"
  shows "length (ndvi_values (ndvi_time_series res)) = 7 \<and>
         (\<forall>i<6. ndvi_values (ndvi_time_series res) ! i - slack
                   < ndvi_values (ndvi_time_series res) ! Suc i) \<and>
         trend (ndvi_time_series res) =
           (if 1 / 2 < draws w !! 12 then ''increasing'' else ''decreasing'')"
proof -
  have "\<forall>i<6. ndvi_values (series_at rt (draws w) (clock w)) ! i - slack
      < ndvi_values (series_at rt (draws w) (clock w)) ! Suc i"
    using ndvi_values_steps [OF unit_draws_snth [OF assms(2)]] by blast
  then show ?thesis
    unfolding POST_Ok200_series(1) [OF assms(1)] by (simp add: series_at_def)
qed

theorem trend_is_a_coin_flip_witness:
  "\<exists>res. POST utc_runtime NetworkError (constant_world (3 / 4) noon) (Some (JObj [])) = Ok200 res \<and>
     unit_draws (constant_world (3 / 4) noon) \<and>
     length (ndvi_values (ndvi_time_series res)) = 7 \<and>
     ndvi_values (ndvi_time_series res) ! 0 - slack < ndvi_values (ndvi_time_series res) ! 1 \<and>
     trend (ndvi_time_series res) = ''increasing''"
proof -
  have u: "unit_draws (constant_world (3 / 4) noon)"
    by (simp add: unit_draws_constant)
  from trend_is_a_coin_flip [OF POST_utc_noon_empty u] POST_utc_noon_empty u show ?thesis
    by simp
qed

text \<open>
  With every draw equal to 0.5 the series is strictly increasing (0.3, 0.4, ... up to
  rounding) and the trend reported is \<^verbatim>\<open>decreasing\<close>. The series is not always strictly
  increasing: when draw 6 is \<open>1 - 2 ^ - 52\<close> and draw 7 is 0, the second and the third
  value are the same number, 0.45.
\<close>

theorem increasing_series_decreasing_trend_counterexample:
  "(case POST utc_runtime NetworkError (constant_world (1 / 2) noon) (Some (JObj [])) of
      Ok200 res \<Rightarrow>
        sorted_wrt (<) (ndvi_values (ndvi_time_series res)) \<and>
        trend (ndvi_time_series res) = ''decreasing''
    | Error500 e \<Rightarrow> False) \<and>
   (case POST utc_runtime NetworkError near_one_world (Some (JObj [])) of
      Ok200 res \<Rightarrow>
        ndvi_values (ndvi_time_series res) ! 1 = ndvi_values (ndvi_time_series res) ! 2 \<and>
        \<not> sorted_wrt (<) (ndvi_values (ndvi_time_series res))
    | Error500 e \<Rightarrow> False)"
proof -
  have "ndvi_at 1 (1 - 1 / 2 ^ 52) = ndvi_at 2 0"
    by (simp only: ndvi_at_one_near_one ndvi_at_two_zero)
  then have "ndvi_values (series_at utc_runtime (draws near_one_world) (clock near_one_world)) =
      [ndvi_at 0 0, ndvi_at 2 0, ndvi_at 2 0, ndvi_at 3 0, ndvi_at 4 0, ndvi_at 5 0, ndvi_at 6 0]"
    by (simp add: series_at_def near_one_world_def upt_rec eval_nat_numeral)
  then show ?thesis
    using ndvi_values_half_increasing [of utc_runtime "sconst noon"]
    by (simp add: POST_utc_noon_empty POST_utc_empty [OF clock_in_range_near_one] series_at_def)
qed

subsection \<open>C3\<close>

text \<open>
  C3 (fails as stated; what holds instead). The recommendation list is the same five
  items whatever the trend: two answers to the same request body carry equal lists, also
  when one trend is \<^verbatim>\<open>decreasing\<close> and the other \<^verbatim>\<open>increasing\<close>. The trend of an answer
  is one of these two and never stable.
\<close>

theorem recommendations_ignore_the_trend:
  assumes "POST rt ext1 w1 request_json = Ok200 res1"
    and "POST rt ext2 w2 request_json = Ok200 res2"
  shows "recommendations res1 = recommendations res2 \<and>
         length (recommendations res1) = 5 \<and>
         (trend (ndvi_time_series res1) = ''increasing'' \<or>
          trend (ndvi_time_series res1) = ''decreasing'')"
proof -
  from assms(1) obtain body where r: "request_json = Some body"
    and z: "renders (zone_count body)"
    and r1: "res1 = insights_step rt ext1 body (mock_at rt w1 body)"
    by (auto elim: POST_Ok200D)
  from assms(2) r obtain body' where "Some body = Some body'"
    and "res2 = insights_step rt ext2 body' (mock_at rt w2 body')"
    by (auto elim: POST_Ok200D)
  then have r2: "res2 = insights_step rt ext2 body (mock_at rt w2 body)"
    by simp
  show ?thesis
    by (simp add: r1 r2 length_recommendations_at [OF z] series_at_def)
qed

theorem recommendations_ignore_the_trend_witness:
  "\<exists>res1 res2.
     POST utc_runtime NetworkError (constant_world (1 / 4) noon) (Some (JObj [])) = Ok200 res1 \<and>
     POST utc_runtime NetworkError (constant_world (3 / 4) noon) (Some (JObj [])) = Ok200 res2 \<and>
     trend (ndvi_time_series res1) = ''decreasing'' \<and>
     trend (ndvi_time_series res2) = ''increasing'' \<and>
     recommendations res1 = recommendations res2"
proof -
  note p1 = POST_utc_noon_empty [of "1 / 4"]
  note p2 = POST_utc_noon_empty [of "3 / 4"]
  from recommendations_ignore_the_trend [OF p1 p2] p1 p2 show ?thesis
    by (simp add: series_at_def)
qed

text \<open>
  No reading of "trend-warning item" and "trend-confirmation item" makes the claim true:
  for every pair of predicates on recommendation texts, the answers with every draw 0.25
  (trend \<^verbatim>\<open>decreasing\<close>) and with every draw 0.75 (trend \<^verbatim>\<open>increasing\<close>) carry the same
  list, so a warning item would be in both or in neither.
\<close>

theorem no_trend_item_counterexample:
  "\<not> (\<exists>is_warning is_confirmation.
        \<forall>rt ext w request_json res.
          POST rt ext w request_json = Ok200 res \<longrightarrow>
            ((\<exists>r\<in>set (recommendations res). is_warning r) \<longleftrightarrow>
               trend (ndvi_time_series res) = ''decreasing'') \<and>
            ((\<exists>r\<in>set (recommendations res). is_confirmation r) \<longleftrightarrow>
               trend (ndvi_time_series res) = ''increasing''))"
proof (rule notI, elim exE)
  fix is_warning is_confirmation :: "string \<Rightarrow> bool"
  assume h: "\<forall>rt ext w request_json res.
          POST rt ext w request_json = Ok200 res \<longrightarrow>
            ((\<exists>r\<in>set (recommendations res). is_warning r) \<longleftrightarrow>
               trend (ndvi_time_series res) = ''decreasing'') \<and>
            ((\<exists>r\<in>set (recommendations res). is_confirmation r) \<longleftrightarrow>
               trend (ndvi_time_series res) = ''increasing'')"
  let ?m1 = "insights_step utc_runtime NetworkError (JObj [])
      (mock_at utc_runtime (constant_world (1 / 4) noon) (JObj []))"
  let ?m2 = "insights_step utc_runtime NetworkError (JObj [])
      (mock_at utc_runtime (constant_world (3 / 4) noon) (JObj []))"
  have same: "recommendations ?m1 = recommendations ?m2"
    by simp
  have t1: "trend (ndvi_time_series ?m1) = ''decreasing''"
    by (simp add: series_at_def)
  have t2: "trend (ndvi_time_series ?m2) \<noteq> ''decreasing''"
    by (simp add: series_at_def)
  from h [rule_format, OF POST_utc_noon_empty [of "1 / 4"]]
  have "(\<exists>r\<in>set (recommendations ?m1). is_warning r) \<longleftrightarrow>
      trend (ndvi_time_series ?m1) = ''decreasing''"
    by (rule conjunct1)
  then have "\<exists>r\<in>set (recommendations ?m1). is_warning r"
    using t1 by (rule iffD2)
  then have e: "\<exists>r\<in>set (recommendations ?m2). is_warning r"
    unfolding same .
  from h [rule_format, OF POST_utc_noon_empty [of "3 / 4"]]
  have "(\<exists>r\<in>set (recommendations ?m2). is_warning r) \<longleftrightarrow>
      trend (ndvi_time_series ?m2) = ''decreasing''"
    by (rule conjunct1)
  then have "trend (ndvi_time_series ?m2) = ''decreasing''"
    using e by (rule iffD1)
  with t2 show False
    by (rule notE)
qed

subsection \<open>C4\<close>

text \<open>
  C4 (fails as stated; what holds instead). The three rainfall statistics are not computed
  from \<open>rainfall_values\<close>: each is a draw of its own. For every answer the 10 rainfall
  values are 20 times the draws 13 to 22, each in \<open>[0, 20]\<close>; \<open>total_rainfall\<close> is
  43.2 plus 20 times draw 23, \<open>avg_daily_rainfall\<close> is 6.17 plus 3 times draw 24 and
  \<open>max_daily_rainfall\<close> is 15.3 plus 10 times draw 25, in binary64 arithmetic, so that
  they lie in \<open>[43.2, 63.2]\<close>, \<open>[6.17, 9.17]\<close> and \<open>[15.3, 25.3]\<close> up to the rounding
  bound \<open>slack\<close>.
\<close>

theorem rainfall_statistics_are_drawn:
  assumes "POST rt ext w request_json = Ok200 res" and "unit_draws w"
  shows "rainfall_values (rainfall_data res) = map (\<lambda>j. times64 (draws w !! (13 + j)) 20) [0..<10] \<and>
         length (rainfall_values (rainfall_data res)) = 10 \<and>
         (\<forall>v\<in>set (rainfall_values (rainfall_data res)). 0 \<le> v \<and> v \<le> 20) \<and>
         total_rainfall (rainfall_data res) = plus64 (binary64 43.2) (times64 (draws w !! 23) 20) \<and>
         avg_daily_rainfall (rainfall_data res) = plus64 (binary64 6.17) (times64 (draws w !! 24) 3) \<and>
         max_daily_rainfall (rainfall_data res) = plus64 (binary64 15.3) (times64 (draws w !! 25) 10) \<and>
         43.2 - slack \<le> total_rainfall (rainfall_data res) \<and>
         total_rainfall (rainfall_data res) \<le> 63.2 + slack \<and>
         6.17 - slack \<le> avg_daily_rainfall (rainfall_data res) \<and>
         avg_daily_rainfall (rainfall_data res) \<le> 9.17 + slack \<and>
         15.3 - slack \<le> max_daily_rainfall (rainfall_data res) \<and>
         max_daily_rainfall (rainfall_data res) \<le> 25.3 + slack"
proof -
  note d = unit_draws_snth [OF assms(2)]
  note r = POST_Ok200_series(2) [OF assms(1)]
  have "rainfall_values (rainfall_data res) = map (\<lambda>j. times64 (draws w !! (13 + j)) 20) [0..<10]"
    and "length (rainfall_values (rainfall_data res)) = 10"
    and "total_rainfall (rainfall_data res) = plus64 (binary64 43.2) (times64 (draws w !! 23) 20)"
    and "avg_daily_rainfall (rainfall_data res) = plus64 (binary64 6.17) (times64 (draws w !! 24) 3)"
    and "max_daily_rainfall (rainfall_data res) = plus64 (binary64 15.3) (times64 (draws w !! 25) 10)"
    unfolding r by (simp_all add: rainfall_at_def scaled_def del: snth.simps)
  moreover have "\<forall>v\<in>set (rainfall_values (rainfall_data res)). 0 \<le> v \<and> v \<le> 20"
    unfolding r using d by (rule rainfall_values_range)
  moreover note rainfall_at_ranges [of "draws w" rt "clock w", OF d, folded r]
  ultimately show ?thesis
    by blast
qed

theorem rainfall_statistics_are_drawn_witness:
  "\<exists>res. POST utc_runtime NetworkError (constant_world (1 / 2) noon) (Some (JObj [])) = Ok200 res \<and>
     unit_draws (constant_world (1 / 2) noon) \<and>
     length (rainfall_values (rainfall_data res)) = 10 \<and>
     rainfall_values (rainfall_data res) ! 0 \<in> set (rainfall_values (rainfall_data res)) \<and>
     0 \<le> rainfall_values (rainfall_data res) ! 0 \<and>
     rainfall_values (rainfall_data res) ! 0 \<le> 20 \<and>
     total_rainfall (rainfall_data res) = plus64 (binary64 43.2) (times64 (1 / 2) 20) \<and>
     43.2 - slack \<le> total_rainfall (rainfall_data res) \<and>
     total_rainfall (rainfall_data res) \<le> 63.2 + slack"
proof -
  let ?res = "insights_step utc_runtime NetworkError (JObj [])
      (mock_at utc_runtime (constant_world (1 / 2) noon) (JObj []))"
  have u: "unit_draws (constant_world (1 / 2) noon)"
    by (simp add: unit_draws_constant)
  note t = rainfall_statistics_are_drawn [OF POST_utc_noon_empty u]
  have m: "rainfall_values (rainfall_data ?res) ! 0 \<in> set (rainfall_values (rainfall_data ?res))"
    using t by (intro nth_mem) simp
  with t have "0 \<le> rainfall_values (rainfall_data ?res) ! 0"
    and "rainfall_values (rainfall_data ?res) ! 0 \<le> 20"
    by blast+
  with t m POST_utc_noon_empty u show ?thesis
    by simp
qed

text \<open>
  With every draw equal to 0 the ten rainfall values are 0, while the total reported is
  43.2, the daily average 6.17 and the daily maximum 15.3 (each up to rounding): none of
  them is the sum, the mean or the maximum of the values.
\<close>

theorem rainfall_total_is_not_the_sum_counterexample:
  "(case POST utc_runtime NetworkError (constant_world 0 noon) (Some (JObj [])) of
      Ok200 res \<Rightarrow>
        rainfall_values (rainfall_data res) = [0, 0, 0, 0, 0, 0, 0, 0, 0, 0] \<and>
        43 < total_rainfall (rainfall_data res) \<and>
        total_rainfall (rainfall_data res) \<noteq> sum_list (rainfall_values (rainfall_data res)) \<and>
        avg_daily_rainfall (rainfall_data res) \<noteq>
          total_rainfall (rainfall_data res) / real (length (rainfall_values (rainfall_data res))) \<and>
        max_daily_rainfall (rainfall_data res) \<noteq> Max (set (rainfall_values (rainfall_data res)))
    | Error500 e \<Rightarrow> False)"
proof -
  define rf where "rf = rainfall_at utc_runtime (sconst 0) (sconst noon)"
  note z = rainfall_at_zero [of utc_runtime "sconst noon", folded rf_def]
  have v: "rainfall_values rf = [0, 0, 0, 0, 0, 0, 0, 0, 0, 0]"
    by (simp add: z(1) eval_nat_numeral)
  have "43 < total_rainfall rf" and "total_rainfall rf < 44"
    and "6 < avg_daily_rainfall rf" and "15 < max_daily_rainfall rf"
    using z(2-4) unfolding abs_le_iff by (simp_all add: field_simps)
  then have "43 < total_rainfall rf \<and> total_rainfall rf \<noteq> sum_list (rainfall_values rf) \<and>
      avg_daily_rainfall rf \<noteq> total_rainfall rf / real (length (rainfall_values rf)) \<and>
      max_daily_rainfall rf \<noteq> Max (set (rainfall_values rf))"
    unfolding v by simp
  with v show ?thesis
    by (simp add: POST_utc_noon_empty rf_def)
qed

subsection \<open>C5\<close>

text \<open>
  C5 (fails as stated; what holds instead). The handler has no check of the zone count.
  A request whose \<open>num_zones\<close> is a number \<open>k \<le> 0\<close> is answered with status 200,
  provided that local time is within a day of UTC and that the clock is a hundred days
  inside the range of \<^verbatim>\<open>Date\<close> (so that the dates can be printed): \<open>zones_identified\<close> is
  the default 3 when \<open>k = 0\<close> (0 is falsy) and \<open>k\<close> itself when \<open>k\<close> is negative; the
  number \<^verbatim>\<open>-Infinity\<close>, which \<^verbatim>\<open>JSON.parse\<close> reads from a literal such as \<^verbatim>\<open>-1e400\<close>, is
  written as \<^verbatim>\<open>null\<close> in the body of the answer.
\<close>

theorem nonpositive_zone_count_is_accepted:
  assumes "get_prop (Some body) ''num_zones'' = Inr (Some z)" and "nonpositive_number z"
    and "tz_bounded rt" and "clock_in_range w"
  shows "\<exists>res. POST rt ext w (Some body) = Ok200 res \<and>
           zones_identified res = (if z = JNum 0 then JNum 3 else z) \<and>
           zones_identified (as_written res) =
             (if z = JNum 0 then JNum 3 else if z = JInf False then JNull else z)"
proof -
  note b = get_prop_InrD [OF assms(1)]
  have zc: "zone_count body = (if z = JNum 0 then JNum 3 else z)"
    using b(2) [symmetric] assms(2) by (cases z) (simp_all add: zone_count_def js_or_def)
  have "renders (zone_count body)"
    unfolding zc using assms(2) by (cases z) simp_all
  with b(1) have "POST rt ext w (Some body) = Ok200 (insights_step rt ext body (mock_at rt w body))"
    using assms(3, 4) by (rule POST_succeeds)
  moreover have "zones_identified (insights_step rt ext body (mock_at rt w body)) =
      (if z = JNum 0 then JNum 3 else z)"
    by (simp add: zc)
  moreover have "zones_identified (as_written (insights_step rt ext body (mock_at rt w body))) =
      (if z = JNum 0 then JNum 3 else if z = JInf False then JNull else z)"
    using assms(2) by (cases z) (simp_all add: as_written_def zc)
  ultimately show ?thesis
    by blast
qed

theorem nonpositive_zone_count_is_accepted_witness:
  "get_prop (Some (JObj [(''num_zones'', JNum 0)])) ''num_zones'' = Inr (Some (JNum 0)) \<and>
   nonpositive_number (JNum 0) \<and> tz_bounded utc_runtime \<and>
   clock_in_range (constant_world 0 noon) \<and>
   (\<exists>res. POST utc_runtime NetworkError (constant_world 0 noon)
            (Some (JObj [(''num_zones'', JNum 0)])) = Ok200 res \<and>
          zones_identified res = JNum 3 \<and> zones_identified (as_written res) = JNum 3)"
proof -
  have g: "get_prop (Some (JObj [(''num_zones'', JNum 0)])) ''num_zones'' = Inr (Some (JNum 0))"
    by simp
  have z: "nonpositive_number (JNum 0)"
    by (simp add: is_binary64_def)
  from nonpositive_zone_count_is_accepted [OF g z tz_bounded_utc clock_in_range_noon,
      of NetworkError 0]
    g z tz_bounded_utc clock_in_range_noon
  show ?thesis
    by simp
qed

text \<open>
  The request \<^verbatim>\<open>{"num_zones": -1}\<close> is answered with status 200, \<open>zones_identified\<close> -1
  and a recommendation that cites -1 zones. The request \<^verbatim>\<open>{"num_zones": -1e400}\<close>, whose
  number is read as \<^verbatim>\<open>-Infinity\<close>, is answered with status 200 too, with \<open>zones_identified\<close>
  written as \<^verbatim>\<open>null\<close>.
\<close>

theorem negative_zone_count_counterexample:
  "(case POST utc_runtime NetworkError (constant_world 0 noon)
           (Some (JObj [(''num_zones'', JNum (- 1))])) of
      Ok200 res \<Rightarrow>
        zones_identified (as_written res) = JNum (- 1) \<and>
        recommendations res ! 2 =
          ''Consider variable rate application based on the -1 identified management zones.''
    | Error500 e \<Rightarrow> False) \<and>
   (case POST utc_runtime NetworkError (constant_world 0 noon)
           (Some (JObj [(''num_zones'', parse_number (- (10 ^ 400)))])) of
      Ok200 res \<Rightarrow>
        zones_identified (as_written res) = JNull \<and>
        recommendations res ! 2 =
          ''Consider variable rate application based on the -Infinity identified management zones.''
    | Error500 e \<Rightarrow> False)"
proof -
  have p: "parse_number (- (10 ^ 400)) = JInf False"
    using parse_number_overflow [of "- (10 ^ 400)"] by simp
  show ?thesis
    unfolding p
    by (simp add: POST_utc_noon prop_of_def js_or_def zone_count_def recommendations_at_def
        recommendations_of_def as_written_def Number_toString_utc decimal_def decimal_nat.simps
        floor_minus)
qed

subsection \<open>C6\<close>

text \<open>
  C6. With the zones numbered as the spec orders them (\<open>order_zones\<close>) and \<open>N \<ge> 2\<close> of
  them: the ids are 1 to \<open>N\<close> in ascending order of centroid, the first zone has the
  lowest and the last zone the highest centroid, and the rows the page renders for
  \<open>zones_identified = N\<close> carry the same ids, with "Low vigor" on the row of zone 1 and
  "High vigor" on the row of zone \<open>N\<close>.
\<close>

theorem lowest_vigor_first_highest_last:
  assumes "zones = order_zones clusters" and "2 \<le> length zones"
  shows "map zone_id zones = [1..<Suc (length zones)] \<and>
         sorted (map centroid_value zones) \<and>
         (\<forall>z\<in>set zones. centroid_value (hd zones) \<le> centroid_value z \<and>
                         centroid_value z \<le> centroid_value (last zones)) \<and>
         map fst (field_zones (real (length zones))) = map zone_id zones \<and>
         field_zones (real (length zones)) ! 0 = (zone_id (hd zones), ''Low vigor'') \<and>
         field_zones (real (length zones)) ! (length zones - 1) =
           (zone_id (last zones), ''High vigor'')"
proof -
  let ?n = "length zones"
  have n: "?n = length clusters"
    by (simp add: assms(1))
  have ne: "zones \<noteq> []"
    using assms(2) by auto
  have ids: "map zone_id zones = [1..<Suc ?n]"
    unfolding assms(1) by (simp add: zone_ids_order_zones)
  have srt: "sorted (map centroid_value zones)"
    unfolding assms(1) centroids_order_zones by (rule sorted_sort_key)
  have lo: "centroid_value (hd zones) \<le> centroid_value z" if "z \<in> set zones" for z
  proof -
    from that obtain i where "i < ?n" and "zones ! i = z"
      by (auto simp: in_set_conv_nth)
    with sorted_nth_mono [OF srt, of 0 i] ne show ?thesis
      by (simp add: hd_conv_nth)
  qed
  have hi: "centroid_value z \<le> centroid_value (last zones)" if "z \<in> set zones" for z
  proof -
    from that obtain i where "i < ?n" and "zones ! i = z"
      by (auto simp: in_set_conv_nth)
    with sorted_nth_mono [OF srt, of i "?n - 1"] ne show ?thesis
      by (simp add: last_conv_nth)
  qed
  have first_id: "zone_id (hd zones) = 1"
    using arg_cong [OF ids, of hd] ne assms(2) by (simp add: hd_map upt_rec)
  have last_id: "zone_id (last zones) = ?n"
    using arg_cong [OF ids, of last] ne assms(2) by (simp add: last_map)
  have "map fst (field_zones (real ?n)) = map Suc [0..<?n]"
    unfolding field_zones_count by (simp add: o_def)
  also have "\<dots> = [1..<Suc ?n]"
    by (simp only: map_Suc_upt One_nat_def)
  also have "\<dots> = map zone_id zones"
    by (rule ids [symmetric])
  finally have rows: "map fst (field_zones (real ?n)) = map zone_id zones" .
  have row0: "field_zones (real ?n) ! 0 = (zone_id (hd zones), ''Low vigor'')"
    unfolding first_id using ne by (simp add: field_zones_nth zone_label_first)
  have rowN: "field_zones (real ?n) ! (?n - 1) = (zone_id (last zones), ''High vigor'')"
    unfolding last_id using ne zone_label_last [OF assms(2)] by (simp add: field_zones_nth)
  from ids srt lo hi rows row0 rowN show ?thesis
    by blast
qed

theorem lowest_vigor_first_highest_last_witness:
  "order_zones [(0.7, [0.7]), (0.2, [0.1, 0.3]), (0.5, [0.5])] =
     order_zones [(0.7, [0.7]), (0.2, [0.1, 0.3]), (0.5, [0.5])] \<and>
   2 \<le> length (order_zones [(0.7, [0.7]), (0.2, [0.1, 0.3]), (0.5, [0.5])]) \<and>
   map centroid_value (order_zones [(0.7, [0.7]), (0.2, [0.1, 0.3]), (0.5, [0.5])]) =
     [0.2, 0.5, 0.7] \<and>
   sorted (map centroid_value (order_zones [(0.7, [0.7]), (0.2, [0.1, 0.3]), (0.5, [0.5])])) \<and>
   field_zones 3 = [(1, ''Low vigor''), (2, ''Moderate vigor''), (3, ''High vigor'')]"
proof -
  let ?cs = "[(0.7, [0.7]), (0.2, [0.1, 0.3]), (0.5, [0.5 :: real])] :: (real \<times> real list) list"
  have l: "2 \<le> length (order_zones ?cs)"
    by simp
  have c: "map centroid_value (order_zones ?cs) = [0.2, 0.5, 0.7]"
    by (simp add: centroids_order_zones)
  have f: "field_zones 3 = [(1, ''Low vigor''), (2, ''Moderate vigor''), (3, ''High vigor'')]"
    by (simp add: field_zones_def ToLength_def zone_label_def upt_rec)
  from lowest_vigor_first_highest_last [OF refl l] l c f show ?thesis
    by simp
qed

subsection \<open>C7\<close>

text \<open>
  C7 (fails as stated; what holds instead). The seven dates of the NDVI series are in
  strictly ascending calendar order provided that local time is within a day of UTC and
  that the clock does not step back by more than a day between two readings: the dates
  are 90, 75, ..., 15 and 0 days before the day of their own reading of the clock, of
  which the handler takes one for each date. The handler does not sort them.
\<close>

theorem ndvi_dates_ascending:
  assumes "POST rt ext w request_json = Ok200 res" and "tz_bounded rt" and "clock_steady w"
  shows "length (dates (ndvi_time_series res)) = 7 \<and>
         sorted_wrt (<) (dates (ndvi_time_series res))"
proof -
  have "sorted_wrt (<) (dates (series_at rt (draws w) (clock w)))"
    using assms(2) assms(3) [unfolded clock_steady_def] by (intro dates_increasing) simp_all
  then show ?thesis
    unfolding POST_Ok200_series(1) [OF assms(1)] by (simp add: series_at_def)
qed

theorem ndvi_dates_ascending_witness:
  "\<exists>res. POST utc_runtime NetworkError (constant_world 0 noon) (Some (JObj [])) = Ok200 res \<and>
     tz_bounded utc_runtime \<and> clock_steady (constant_world 0 noon) \<and>
     dates (ndvi_time_series res) = [20669, 20684, 20699, 20714, 20729, 20744, 20759] \<and>
     sorted_wrt (<) (dates (ndvi_time_series res))"
proof -
  have "dates (series_at utc_runtime (sconst 0) (sconst noon)) =
      [20669, 20684, 20699, 20714, 20729, 20744, 20759]"
    by (simp add: series_at_def setDate_days_ago_def utc_runtime_def noon_def msPerDay_def upt_rec)
  with ndvi_dates_ascending [OF POST_utc_noon_empty tz_bounded_utc clock_steady_constant]
    POST_utc_noon_empty tz_bounded_utc clock_steady_constant
  show ?thesis
    by simp
qed

text \<open>
  When the clock of the server is set back by twenty days after the first \<^verbatim>\<open>new Date()\<close>
  of a request, the first date (day 20669) is later than the second (day 20664).
\<close>

theorem clock_set_back_counterexample:
  "(case POST utc_runtime NetworkError clock_set_back (Some (JObj [])) of
      Ok200 res \<Rightarrow>
        dates (ndvi_time_series res) = [20669, 20664, 20679, 20694, 20709, 20724, 20739] \<and>
        \<not> sorted_wrt (<) (dates (ndvi_time_series res))
    | Error500 e \<Rightarrow> False)"
proof -
  have "dates (series_at utc_runtime (draws clock_set_back) (clock clock_set_back)) =
      [20669, 20664, 20679, 20694, 20709, 20724, 20739]"
    by (simp add: series_at_def setDate_days_ago_def utc_runtime_def clock_set_back_def noon_def
        msPerDay_def upt_rec)
  then show ?thesis
    by (simp add: POST_utc_empty [OF clock_in_range_set_back])
qed

subsection \<open>C8\<close>

text \<open>
  C8 (fails as stated; what holds instead). For every answer of the handler, whatever
  the draws in \<open>[0, 1)\<close>: \<open>min < mean < max\<close> and \<open>stddev > 0\<close>, and \<open>min\<close> lies in
  \<open>[0.20, 0.30]\<close>, \<open>mean\<close> in \<open>[0.55, 0.75]\<close>, \<open>max\<close> in \<open>[0.80, 0.90]\<close> and \<open>stddev\<close>
  in \<open>[0.095, 0.145]\<close> up to the rounding bound \<open>slack\<close> on either side. The intervals
  of the claim are those of exact arithmetic; the binary64 numbers the handler computes
  leave them.
\<close>

theorem ndvi_stats_ranges:
  assumes "POST rt ext w request_json = Ok200 res" and "unit_draws w"
  shows "min_value (ndvi_stats res) < mean (ndvi_stats res) \<and>
         mean (ndvi_stats res) < max_value (ndvi_stats res) \<and>
         0 < stddev (ndvi_stats res) \<and>
         0.20 - slack \<le> min_value (ndvi_stats res) \<and> min_value (ndvi_stats res) \<le> 0.30 + slack \<and>
         0.55 - slack \<le> mean (ndvi_stats res) \<and> mean (ndvi_stats res) \<le> 0.75 + slack \<and>
         0.80 - slack \<le> max_value (ndvi_stats res) \<and> max_value (ndvi_stats res) \<le> 0.90 + slack \<and>
         0.095 - slack \<le> stddev (ndvi_stats res) \<and> stddev (ndvi_stats res) \<le> 0.145 + slack"
proof -
  from assms(1) obtain body where "res = insights_step rt ext body (mock_at rt w body)"
    by (rule POST_Ok200D)
  then have s: "ndvi_stats res = stats_at (draws w)"
    by simp
  note d = unit_draws_snth [OF assms(2)]
  from stats_at_order [of "draws w", OF d] stats_at_ranges [of "draws w", OF d]
  show ?thesis
    unfolding s by blast
qed

theorem ndvi_stats_ranges_witness:
  "\<exists>res. POST utc_runtime NetworkError (constant_world 0 noon) (Some (JObj [])) = Ok200 res \<and>
     unit_draws (constant_world 0 noon) \<and>
     min_value (ndvi_stats res) < mean (ndvi_stats res) \<and>
     mean (ndvi_stats res) < max_value (ndvi_stats res) \<and>
     0 < stddev (ndvi_stats res) \<and>
     0.80 - slack \<le> max_value (ndvi_stats res)"
proof -
  have u: "unit_draws (constant_world 0 noon)"
    by (simp add: unit_draws_constant)
  from ndvi_stats_ranges [OF POST_utc_noon_empty u] POST_utc_noon_empty u show ?thesis
    by blast
qed

text \<open>
  With every draw equal to 0 the maximum is \<^verbatim>\<open>0.85 + (0 - 0.5) * 0.1\<close>, which is the
  binary64 number \<open>7205759403792793 / 2 ^ 53\<close>, printed as 0.7999999999999999: it is
  below 0.80.
\<close>

theorem max_below_its_range_counterexample:
  "(case POST utc_runtime NetworkError (constant_world 0 noon) (Some (JObj [])) of
      Ok200 res \<Rightarrow>
        max_value (ndvi_stats res) = 7205759403792793 / 2 ^ 53 \<and> max_value (ndvi_stats res) < 0.80
    | Error500 e \<Rightarrow> False)"
proof -
  have "max_value (stats_at (sconst 0)) = spread (binary64 0.85) 0 0.1"
    by (simp add: stats_at_def)
  also have "\<dots> = 7205759403792793 / 2 ^ 53"
    by (rule max_at_zero)
  finally show ?thesis
    by (simp add: POST_utc_noon_empty)
qed

subsection \<open>C9\<close>

text \<open>
  C9. When the request asks for the generated report (\<open>use_ai_insights\<close> and
  \<open>groq_api_key\<close> are truthy) and the external call fails, the handler answers with
  status 200 and with exactly the object \<open>mockResponse\<close> it had built before the call,
  which has no \<open>ai_insights\<close>.
\<close>

theorem ai_failure_is_contained:
  assumes "mock_response rt w body = Inr (mockResponse, w')"
    and "get_prop (Some body) ''use_ai_insights'' = Inr use_ai" and "truthy use_ai"
    and "get_prop (Some body) ''groq_api_key'' = Inr groqApiKey" and "truthy groqApiKey"
    and "call_failed ext"
  shows "POST rt ext w (Some body) = Ok200 mockResponse \<and> ai_insights mockResponse = None"
proof -
  note m = mock_response_InrD [OF assms(1)]
  have "POST rt ext w (Some body) = Ok200 (insights_step rt ext body mockResponse)"
    using m by (simp add: POST_eq)
  then show ?thesis
    using m(4) by (simp add: insights_step_failed [OF assms(6)])
qed

theorem ai_failure_is_contained_witness:
  "\<exists>mockResponse w'.
     mock_response utc_runtime (constant_world 0 noon) ai_request = Inr (mockResponse, w') \<and>
     get_prop (Some ai_request) ''use_ai_insights'' = Inr (Some (JBool True)) \<and>
     truthy (Some (JBool True)) \<and>
     get_prop (Some ai_request) ''groq_api_key'' = Inr (Some (JStr ''gsk'')) \<and>
     truthy (Some (JStr ''gsk'')) \<and>
     call_failed (HttpResponse False None) \<and>
     POST utc_runtime (HttpResponse False None) (constant_world 0 noon) (Some ai_request) =
       Ok200 mockResponse \<and>
     ai_insights mockResponse = None"
proof -
  have m: "mock_response utc_runtime (constant_world 0 noon) ai_request =
      Inr (mock_at utc_runtime (constant_world 0 noon) ai_request,
        (constant_world 0 noon)\<lparr>draws := sdrop 26 (draws (constant_world 0 noon)),
          clock := sdrop 17 (clock (constant_world 0 noon))\<rparr>)"
    by (simp add: mock_response_eq dates_printable_in_range tz_bounded_utc clock_in_range_noon
        ai_request_def zone_count_def prop_of_def js_or_def)
  have a: "get_prop (Some ai_request) ''use_ai_insights'' = Inr (Some (JBool True))"
    by (simp add: ai_request_def)
  have k: "get_prop (Some ai_request) ''groq_api_key'' = Inr (Some (JStr ''gsk''))"
    by (simp add: ai_request_def)
  have f: "call_failed (HttpResponse False None)"
    by (simp add: call_failed_def)
  have "truthy (Some (JBool True))" and "truthy (Some (JStr ''gsk''))"
    by simp_all
  with ai_failure_is_contained [OF m a _ k _ f] m a k f show ?thesis
    by blast
qed

subsection \<open>C10\<close>

text \<open>
  C10 (fails as stated; what holds instead). Take a request whose body is JSON other
  than \<^verbatim>\<open>null\<close> and whose \<open>num_zones\<close>, when truthy, can be converted to a string (it is
  not an object with an own property \<^verbatim>\<open>toString\<close>, nor an array that holds one), on a
  server whose local time is within a day of UTC and whose clock is a hundred days
  inside the range of \<^verbatim>\<open>Date\<close>. The handler answers with status 200; \<open>crop_type\<close> and
  \<open>crop_growth_stage\<close> of the result are the properties of the body (absent when the
  body has none), and \<open>zones_identified\<close> is the body's \<open>num_zones\<close> when that is truthy
  and 3 otherwise. In the body of the answer these three values are written by
  \<^verbatim>\<open>JSON.stringify\<close>: unchanged when the request holds no number that overflowed, and
  with \<^verbatim>\<open>null\<close> for each number that did.
\<close>

theorem request_is_echoed:
  assumes "body \<noteq> JNull" and "well_formed body"
    and "get_prop (Some body) ''num_zones'' = Inr num_zones"
    and "renders (js_or num_zones (JNum 3))"
    and "tz_bounded rt" and "clock_in_range w"
  shows "\<exists>res. POST rt ext w (Some body) = Ok200 res \<and>
           get_prop (Some body) ''crop_type'' = Inr (crop_type res) \<and>
           get_prop (Some body) ''crop_growth_stage'' = Inr (crop_growth_stage res) \<and>
           (if truthy num_zones then num_zones = Some (zones_identified res)
            else zones_identified res = JNum 3) \<and>
           crop_type (as_written res) = map_option written (crop_type res) \<and>
           crop_growth_stage (as_written res) = map_option written (crop_growth_stage res) \<and>
           zones_identified (as_written res) = written (zones_identified res) \<and>
           (finite_json body \<longrightarrow>
              crop_type (as_written res) = crop_type res \<and>
              crop_growth_stage (as_written res) = crop_growth_stage res \<and>
              zones_identified (as_written res) = zones_identified res)"
proof -
  let ?res = "insights_step rt ext body (mock_at rt w body)"
  have nz: "num_zones = prop_of body ''num_zones''"
    using assms(3) by (rule get_prop_InrD)
  have r: "renders (zone_count body)"
    using assms(4) by (simp add: zone_count_def nz)
  have "POST rt ext w (Some body) = Ok200 ?res"
    using assms(1) r assms(5, 6) by (rule POST_succeeds)
  moreover have "get_prop (Some body) ''crop_type'' = Inr (crop_type ?res)"
    and "get_prop (Some body) ''crop_growth_stage'' = Inr (crop_growth_stage ?res)"
    using assms(1) by (simp_all add: get_prop_not_null)
  moreover have "if truthy num_zones then num_zones = Some (zones_identified ?res)
      else zones_identified ?res = JNum 3"
    unfolding nz by (cases "prop_of body ''num_zones''") (simp_all add: zone_count_def js_or_def)
  moreover have "crop_type (as_written ?res) = map_option written (crop_type ?res)"
    and "crop_growth_stage (as_written ?res) = map_option written (crop_growth_stage ?res)"
    and "zones_identified (as_written ?res) = written (zones_identified ?res)"
    by (simp_all add: as_written_def)
  moreover have "crop_type (as_written ?res) = crop_type ?res"
    and "crop_growth_stage (as_written ?res) = crop_growth_stage ?res"
    and "zones_identified (as_written ?res) = zones_identified ?res" if f: "finite_json body"
  proof -
    show "crop_type (as_written ?res) = crop_type ?res"
      and "crop_growth_stage (as_written ?res) = crop_growth_stage ?res"
      by (simp_all add: as_written_def written_prop [OF f])
    have "finite_json (zone_count body)"
      using finite_json_prop [OF f, of "''num_zones''"]
      by (cases "prop_of body ''num_zones''") (simp_all add: zone_count_def js_or_def)
    then show "zones_identified (as_written ?res) = zones_identified ?res"
      by (simp add: as_written_def written_finite)
  qed
  ultimately show ?thesis
    by blast
qed

theorem request_is_echoed_witness:
  "wheat_request \<noteq> JNull \<and> well_formed wheat_request \<and>
   get_prop (Some wheat_request) ''num_zones'' = Inr (Some (JNum 5)) \<and>
   renders (js_or (Some (JNum 5)) (JNum 3)) \<and>
   tz_bounded utc_runtime \<and> clock_in_range (constant_world 0 noon) \<and>
   finite_json wheat_request \<and>
   (\<exists>res. POST utc_runtime NetworkError (constant_world 0 noon) (Some wheat_request) = Ok200 res \<and>
      crop_type (as_written res) = Some (JStr ''Wheat'') \<and>
      crop_growth_stage (as_written res) = Some (JStr ''Vegetative'') \<and>
      zones_identified (as_written res) = JNum 5)"
proof -
  have n: "wheat_request \<noteq> JNull"
    by (simp add: wheat_request_def)
  have wf: "well_formed wheat_request"
    by (simp add: wheat_request_def is_binary64_def binary64_five)
  have g: "get_prop (Some wheat_request) ''num_zones'' = Inr (Some (JNum 5))"
    by (simp add: wheat_request_def)
  have r: "renders (js_or (Some (JNum 5)) (JNum 3))"
    by (simp add: js_or_def)
  have f: "finite_json wheat_request"
    by (simp add: wheat_request_def)
  from request_is_echoed [OF n wf g r tz_bounded_utc clock_in_range_noon, of NetworkError 0] f
  have "\<exists>res. POST utc_runtime NetworkError (constant_world 0 noon) (Some wheat_request) = Ok200 res \<and>
      crop_type (as_written res) = Some (JStr ''Wheat'') \<and>
      crop_growth_stage (as_written res) = Some (JStr ''Vegetative'') \<and>
      zones_identified (as_written res) = JNum 5"
    by (auto simp: wheat_request_def)
  with n wf g r f tz_bounded_utc clock_in_range_noon show ?thesis
    by blast
qed

text \<open>
  The body \<^verbatim>\<open>null\<close> is JSON; reading \<^verbatim>\<open>body.num_zones\<close> throws and the handler answers
  with status 500. So it does for the body \<^verbatim>\<open>{"num_zones": {"toString": 1}}\<close>, whose
  zone count cannot be spliced into the third recommendation.
\<close>

theorem null_body_counterexample:
  "POST utc_runtime NetworkError (constant_world 0 noon) (Some JNull) =
     Error500 ''Analysis failed'' \<and>
   POST utc_runtime NetworkError (constant_world 0 noon)
     (Some (JObj [(''num_zones'', JObj [(''toString'', JNum 1)])])) = Error500 ''Analysis failed''"
  by (simp add: POST_eq zone_count_def prop_of_def js_or_def)

end
